theory Spec2Isabelle
  imports Complex_Main "HOL-Library.Sublist"
begin

section \<open>Python values used by both modules\<close>

text \<open>
  The two modules verified here are \<^verbatim>\<open>services/simviator/aviation_pronunciation.py\<close>
  (the transcription engine) and \<^verbatim>\<open>services/simviator/flight_guidance_character.py\<close>
  (the guidance-character system). Python exceptions are values of \<open>py_error\<close>; a
  function that may raise returns \<open>py_error + 'a\<close> with \<open>Inl\<close> for the exception.
\<close>

datatype py_error = KeyError string | IndexError

text \<open>\<^verbatim>\<open>sep.join(parts)\<close>.\<close>

fun join :: "string \<Rightarrow> string list \<Rightarrow> string" where
  "join sep [] = []"
| "join sep [x] = x"
| "join sep (x # y # ys) = x @ sep @ join sep (y # ys)"

text \<open>\<^verbatim>\<open>str(n)\<close> for a Python int: decimal digits, a leading minus sign when negative.\<close>

fun str_nat :: "nat \<Rightarrow> string" where
  "str_nat n =
     (if n < 10 then [''0123456789'' ! n]
      else str_nat (n div 10) @ [''0123456789'' ! (n mod 10)])"

declare str_nat.simps [simp del]

definition str_int :: "int \<Rightarrow> string" where
  "str_int i = (if i < 0 then CHR ''-'' # str_nat (nat (- i)) else str_nat (nat i))"

text \<open>
  \<^verbatim>\<open>s.replace(old, new)\<close> for a non-empty \<open>old\<close>: the occurrences are replaced from
  left to right without overlap. (The source only calls it with non-empty literals; for
  an empty \<open>old\<close> the model returns the string unchanged.)
\<close>

function replace :: "string \<Rightarrow> string \<Rightarrow> string \<Rightarrow> string" where
  "replace old new [] = []"
| "replace old new (c # cs) =
     (if old \<noteq> [] \<and> prefix old (c # cs)
      then new @ replace old new (drop (length old) (c # cs))
      else c # replace old new cs)"
  by pat_completeness auto
termination
  by (relation "measure (\<lambda>(old, new, s). length s)") auto

text \<open>\<^verbatim>\<open>s.strip()\<close>: the ASCII whitespace characters are removed at both ends.\<close>

definition isspace :: "char \<Rightarrow> bool" where
  "isspace c = (c \<in> set [CHR '' '', CHR 0x09, CHR 0x0A, CHR 0x0B, CHR 0x0C, CHR 0x0D,
                          CHR 0x1C, CHR 0x1D, CHR 0x1E, CHR 0x1F])"

definition strip :: "string \<Rightarrow> string" where
  "strip s = rev (dropWhile isspace (rev (dropWhile isspace s)))"

text \<open>\<^verbatim>\<open>s.split(sep)\<close> for a one-character separator: always at least one part.\<close>

fun split :: "char \<Rightarrow> string \<Rightarrow> string list" where
  "split sep [] = [[]]"
| "split sep (c # cs) =
     (if c = sep then [] # split sep cs
      else (case split sep cs of [] \<Rightarrow> [[c]] | p # ps \<Rightarrow> (c # p) # ps))"

text \<open>\<^verbatim>\<open>s.zfill(width)\<close>: zeros are inserted on the left, after a leading sign.\<close>

definition zfill :: "nat \<Rightarrow> string \<Rightarrow> string" where
  "zfill width s =
     (if width \<le> length s then s
      else (case s of
              c # cs \<Rightarrow>
                (if c = CHR ''+'' \<or> c = CHR ''-''
                 then c # replicate (width - length s) CHR ''0'' @ cs
                 else replicate (width - length s) CHR ''0'' @ s)
            | [] \<Rightarrow> replicate width CHR ''0''))"

text \<open>\<^verbatim>\<open>s.isdigit()\<close> on an ASCII string: non-empty and decimal digits only.\<close>

definition isdigit :: "string \<Rightarrow> bool" where
  "isdigit s = (s \<noteq> [] \<and> list_all (\<lambda>c. c \<in> set ''0123456789'') s)"

text \<open>
  \<^verbatim>\<open>random.choice(seq)\<close>: IndexError on an empty sequence, otherwise one of its
  elements. The outcome of the draw is the number \<open>k\<close>; every element is reached by
  some \<open>k\<close>.
\<close>

definition random_choice :: "nat \<Rightarrow> 'a list \<Rightarrow> py_error + 'a" where
  "random_choice k xs = (if xs = [] then Inl IndexError else Inr (xs ! (k mod length xs)))"

section \<open>The transcription engine (aviation\_pronunciation.py)\<close>

text \<open>The table \<^verbatim>\<open>AVIATION_NUMBERS\<close>, a dict keyed by one-character strings.\<close>

definition AVIATION_NUMBERS :: "string \<Rightarrow> string option" where
  "AVIATION_NUMBERS =
     map_of [(''0'', ''Zero''), (''1'', ''One''), (''2'', ''Two''), (''3'', ''Three''),
             (''4'', ''Four''), (''5'', ''Five''), (''6'', ''Six''), (''7'', ''Seven''),
             (''8'', ''Eight''), (''9'', ''Niner'')]"

text \<open>\<^verbatim>\<open>AVIATION_NUMBERS[key]\<close>: a missing key raises KeyError.\<close>

definition aviation_number :: "string \<Rightarrow> py_error + string" where
  "aviation_number key =
     (case AVIATION_NUMBERS key of None \<Rightarrow> Inl (KeyError key) | Some w \<Rightarrow> Inr w)"

text \<open>
  The comprehension \<^verbatim>\<open>[AVIATION_NUMBERS[d] for d in s]\<close>: it raises at the first
  character of \<open>s\<close> that is not a key.
\<close>

fun aviation_digits :: "string \<Rightarrow> py_error + string list" where
  "aviation_digits [] = Inr []"
| "aviation_digits (d # ds) =
     (case aviation_number [d] of
        Inl e \<Rightarrow> Inl e
      | Inr w \<Rightarrow> (case aviation_digits ds of Inl e \<Rightarrow> Inl e | Inr ws \<Rightarrow> Inr (w # ws)))"

text \<open>\<^verbatim>\<open>_pronounce_flight_level_number(fl_number)\<close>.\<close>

definition pronounce_flight_level_number :: "int \<Rightarrow> py_error + string" where
  "pronounce_flight_level_number fl_number =
     (if fl_number < 10 then
        (case aviation_number (str_int fl_number) of
           Inl e \<Rightarrow> Inl e
         | Inr w \<Rightarrow> Inr (''Zero '' @ w))
      else if fl_number < 100 then
        (let tens = fl_number div 10; ones = fl_number mod 10 in
         if ones = 0 then
           (case aviation_number (str_int tens) of
              Inl e \<Rightarrow> Inl e
            | Inr w \<Rightarrow> Inr (w @ '' Zero''))
         else
           (case aviation_number (str_int tens) of
              Inl e \<Rightarrow> Inl e
            | Inr w \<Rightarrow>
                (case aviation_number (str_int ones) of
                   Inl e \<Rightarrow> Inl e
                 | Inr v \<Rightarrow> Inr (w @ '' '' @ v))))
      else
        (case aviation_digits (str_int fl_number) of
           Inl e \<Rightarrow> Inl e
         | Inr digits \<Rightarrow> Inr (join '' '' digits)))"

text \<open>
  \<^verbatim>\<open>_pronounce_altitude_feet(altitude)\<close> collects \<^verbatim>\<open>parts\<close> in three steps, marked
  by the source's comments: the thousands part, the hundreds part and the remainder
  (nothing for 0, one digit word below 10, digit by digit otherwise).
\<close>

definition thousands_part :: "int \<Rightarrow> py_error + string" where
  "thousands_part thousands =
     (if thousands = 1 then Inr ''One Thousand''
      else (case aviation_digits (str_int thousands) of
              Inl e \<Rightarrow> Inl e
            | Inr thousands_digits \<Rightarrow> Inr (join '' '' thousands_digits @ '' Thousand'')))"

definition hundreds_part :: "int \<Rightarrow> py_error + string list" where
  "hundreds_part hundreds =
     (if hundreds > 0 then
        (case aviation_number (str_int hundreds) of
           Inl e \<Rightarrow> Inl e
         | Inr w \<Rightarrow> Inr [w @ '' Hundred''])
      else Inr [])"

definition remainder_parts :: "int \<Rightarrow> py_error + string list" where
  "remainder_parts remainder =
     (if remainder > 0 then
        (if remainder < 10 then
           (case aviation_number (str_int remainder) of
              Inl e \<Rightarrow> Inl e
            | Inr w \<Rightarrow> Inr [w])
         else
           (case aviation_digits (str_int remainder) of
              Inl e \<Rightarrow> Inl e
            | Inr remainder_digits \<Rightarrow> Inr [join '' '' remainder_digits]))
      else Inr [])"

definition pronounce_altitude_feet :: "int \<Rightarrow> py_error + string" where
  "pronounce_altitude_feet altitude =
     (if altitude = 0 then Inr ''Zero feet''
      else if altitude \<ge> 1000 then
        (let thousands = altitude div 1000;
             hundreds = (altitude mod 1000) div 100;
             remainder = altitude mod 100
         in case thousands_part thousands of
              Inl e \<Rightarrow> Inl e
            | Inr p1 \<Rightarrow>
               (case hundreds_part hundreds of
                  Inl e \<Rightarrow> Inl e
                | Inr p2 \<Rightarrow>
                   (case remainder_parts remainder of
                      Inl e \<Rightarrow> Inl e
                    | Inr p3 \<Rightarrow> Inr (join '' '' ([p1] @ p2 @ p3) @ '' feet''))))
      else if altitude \<ge> 100 then
        (let hundreds = altitude div 100;
             remainder = altitude mod 100
         in case aviation_number (str_int hundreds) of
              Inl e \<Rightarrow> Inl e
            | Inr w \<Rightarrow>
               (case remainder_parts remainder of
                  Inl e \<Rightarrow> Inl e
                | Inr p3 \<Rightarrow> Inr (join '' '' ([w @ '' Hundred''] @ p3) @ '' feet'')))
      else if altitude < 10 then
        (case aviation_number (str_int altitude) of
           Inl e \<Rightarrow> Inl e
         | Inr w \<Rightarrow> Inr (w @ '' feet''))
      else
        (case aviation_digits (str_int altitude) of
           Inl e \<Rightarrow> Inl e
         | Inr digits \<Rightarrow> Inr (join '' '' digits @ '' feet'')))"

text \<open>
  \<^verbatim>\<open>pronounce_altitude(altitude)\<close> on an int argument. (The \<^verbatim>\<open>isinstance(altitude, str)\<close>
  branch only converts a string to an int first and is not taken for an int.)
\<close>

definition pronounce_altitude :: "int \<Rightarrow> py_error + string" where
  "pronounce_altitude altitude =
     (if altitude \<ge> 18000 \<and> altitude mod 100 = 0 then
        (let flight_level = altitude div 100 in
         if flight_level < 100 then
           (case pronounce_flight_level_number flight_level of
              Inl e \<Rightarrow> Inl e
            | Inr w \<Rightarrow> Inr (''Flight Level '' @ w))
         else
           (case aviation_digits (str_int flight_level) of
              Inl e \<Rightarrow> Inl e
            | Inr digits \<Rightarrow> Inr (''Flight Level '' @ join '' '' digits)))
      else pronounce_altitude_feet altitude)"

text \<open>
  \<^verbatim>\<open>pronounce_time(time_str)\<close>. The three accepted shapes give \<open>Some time_digits\<close>; the
  two \<^verbatim>\<open>return time_str  # Can't parse\<close> exits give \<open>None\<close>.
\<close>

definition time_digits_of :: "string \<Rightarrow> string option" where
  "time_digits_of clean_time =
     (if CHR '':'' \<in> set clean_time then
        (let parts = split CHR '':'' clean_time in
         if length parts = 2 then Some (zfill 2 (parts ! 0) @ zfill 2 (parts ! 1))
         else None)
      else if length clean_time = 4 \<and> isdigit clean_time then Some clean_time
      else if length clean_time = 3 \<and> isdigit clean_time then Some (''0'' @ clean_time)
      else None)"

definition pronounce_time :: "string \<Rightarrow> py_error + string" where
  "pronounce_time time_str =
     (let clean_time =
            strip (replace ''GMT'' '''' (replace ''UTC'' '''' (replace ''Z'' '''' time_str)))
      in case time_digits_of clean_time of
           None \<Rightarrow> Inr time_str
         | Some time_digits \<Rightarrow>
             (case aviation_digits time_digits of
                Inl e \<Rightarrow> Inl e
              | Inr digits \<Rightarrow>
                  if length digits = 4
                  then Inr (digits ! 0 @ '' '' @ digits ! 1 @ '' '' @ digits ! 2 @ '' ''
                            @ digits ! 3 @ '' hours'')
                  else Inr (join '' '' digits @ '' hours'')))"


section \<open>The guidance-character system (flight\_guidance\_character.py)\<close>

subsection \<open>Data\<close>

text \<open>
  A \<^verbatim>\<open>datetime\<close> is a number of microseconds (its resolution), so
  \<^verbatim>\<open>(a - b).total_seconds()\<close> is the exact quotient below. Probabilities and the
  results of \<^verbatim>\<open>random.random()\<close> are rationals. The source compares floats; for
  times of microsecond resolution its comparisons with the cooldown (3.0 times a
  whole factor) and with 5 minutes have the same outcome as the exact ones here.
\<close>

type_synonym datetime = int

definition total_seconds :: "int \<Rightarrow> rat" where
  "total_seconds delta = of_int delta / 1000000"

datatype GuidancePersonality =
    BORED_CONTROLLER | HARRIED_CONTROLLER | VETERAN_PILOT
  | NERVOUS_STUDENT | ENTHUSIAST_SPOTTER | SAFETY_OFFICER

record GuidanceCharacter =
  name :: string
  personality :: GuidancePersonality
  background :: string
  speech_patterns :: "string list"
  expertise_areas :: "string list"
  response_likelihood :: rat
  professional_level :: int
  current_mood :: string
  tiredness_level :: rat
  last_spoke :: "datetime option"
  spoke_count_session :: int

text \<open>One entry of \<^verbatim>\<open>conversation_flow\<close> (a dict with these four keys).\<close>

record conversation_entry =
  timestamp :: datetime
  character :: string
  message :: string
  situation :: string

record GuidanceContext =
  aircraft_callsign :: string
  flight_phase :: string
  complexity_level :: int
  traffic_density :: int
  weather_conditions :: string
  emergency_situation :: bool
  active_characters :: "string list"
  conversation_flow :: "conversation_entry list"
  dominant_character :: "string option"

text \<open>
  The object \<^verbatim>\<open>FlightGuidanceCharacterSystem\<close>. \<open>characters\<close> is the dict in insertion
  order. The last two fields are the environment the methods act on: \<open>clock\<close> is the
  wall clock that \<^verbatim>\<open>datetime.now()\<close> reads, and \<open>dispatched\<close> is the sequence of calls
  \<^verbatim>\<open>callback(character_name, guidance)\<close> made by \<^verbatim>\<open>_output_guidance\<close>, each with the
  clock value at which it was made.
\<close>

record FlightGuidanceCharacterSystem =
  characters :: "(string \<times> GuidanceCharacter) list"
  guidance_context :: GuidanceContext
  last_guidance_time :: datetime
  guidance_cooldown_seconds :: rat
  max_active_characters :: int
  character_rotation_minutes :: int
  clock :: datetime
  dispatched :: "(datetime \<times> string \<times> string) list"

text \<open>
  The flight snapshot is a dict read with \<^verbatim>\<open>flight_data.get(key, default)\<close>; a key
  may be absent.
\<close>

record flight_data =
  callsign :: "string option"
  phase :: "string option"
  traffic_count :: "int option"
  weather :: "string option"
  emergency :: "bool option"
  weather_severity :: "int option"
  altitude :: "int option"
  aircraft_type :: "string option"

definition get :: "'a option \<Rightarrow> 'a \<Rightarrow> 'a" where
  "get v dflt = (case v of None \<Rightarrow> dflt | Some x \<Rightarrow> x)"

record SituationAnalysis =
  situation_type :: string
  urgency_level :: int
  requires_technical_guidance :: bool
  traffic_concerns :: "string list"
  weather_concerns :: "string list"
  educational_opportunities :: "string list"
  character_preferences :: "string list"

text \<open>
  What one emission draws from its environment: the results of \<^verbatim>\<open>random.choice\<close> and
  \<^verbatim>\<open>random.random()\<close> in the message generator, and the time that passes before each
  clock read (and in \<^verbatim>\<open>asyncio.sleep(2.0)\<close>, beyond the two seconds).
\<close>

record emission_outcomes =
  template_choice :: nat
  filler_random :: rat
  filler_choice :: nat
  dispatch_delay :: nat
  output_delay :: nat
  spoke_delay :: nat
  history_delay :: nat
  sleep_extra :: nat

text \<open>
  What one call of \<^verbatim>\<open>process_flight_situation\<close> draws: the gate's clock read and random
  number, the selector's clock read, the \<^verbatim>\<open>random.random()\<close> compared with each
  character's \<^verbatim>\<open>response_likelihood\<close>, the choices of the first and second speaker, and
  the outcomes of the emissions by their position in the cycle.
\<close>

record cycle_outcomes =
  gate_delay :: nat
  gate_random :: rat
  select_delay :: nat
  likelihood_random :: "string \<Rightarrow> rat"
  primary_choice :: nat
  second_random :: rat
  second_choice :: nat
  emission :: "nat \<Rightarrow> emission_outcomes"

subsection \<open>Construction\<close>

text \<open>\<^verbatim>\<open>_initialize_characters\<close>: the cast of the reference configuration.\<close>

definition initial_characters :: "(string \<times> GuidanceCharacter) list" where
  "initial_characters =
     [(''dublin_control'',
       \<lparr>name = ''Dublin Control'', personality = BORED_CONTROLLER,
        background = ''20-year veteran controller at Dublin, seen everything twice'',
        speech_patterns =
          [''Right then, {callsign}...'',
           ''Copy that, {callsign}, been there before...'',
           ''Ah yes, {callsign}, another day another dollar...'',
           ''Sure thing, {callsign}, nothing new under the sun...'',
           ''Roger, {callsign}, same old same old...'',
           ''*sigh* Alright {callsign}, let's sort this out...'',
           ''Been doing this since before you were flying, {callsign}...''],
        expertise_areas =
          [''traffic_management'', ''conflict_resolution'', ''airspace_procedures''],
        response_likelihood = 8 / 10, professional_level = 9,
        current_mood = ''neutral'', tiredness_level = 0, last_spoke = None,
        spoke_count_session = 0\<rparr>),
      (''approach_control'',
       \<lparr>name = ''Approach Control'', personality = HARRIED_CONTROLLER,
        background = ''Busy approach controller, multiple aircraft, efficient communication'',
        speech_patterns =
          [''Quick one, {callsign} -'', ''{callsign}, expedite -'',
           ''Rapid fire, {callsign} -'', ''Keep it moving, {callsign} -'',
           ''No time to chat, {callsign} -'', ''{callsign}, immediately -'',
           ''Speed it up, {callsign} -''],
        expertise_areas = [''approach_procedures'', ''sequencing'', ''emergency_handling''],
        response_likelihood = 6 / 10, professional_level = 8,
        current_mood = ''neutral'', tiredness_level = 0, last_spoke = None,
        spoke_count_session = 0\<rparr>),
      (''captain_murphy'',
       \<lparr>name = ''Captain Murphy'', personality = VETERAN_PILOT,
        background = ''Retired Aer Lingus captain, 35 years commercial aviation'',
        speech_patterns =
          [''In my day, we'd handle that by...'',
           ''Reminds me of a flight back in '87...'',
           ''Pro tip - watch out for...'',
           ''I've seen this before, best to...'',
           ''Old pilot trick - when you see...'',
           ''After 10,000 hours, you learn that...'',
           ''Back when I flew the 737...''],
        expertise_areas = [''commercial_procedures'', ''weather_flying'', ''emergency_procedures''],
        response_likelihood = 4 / 10, professional_level = 10,
        current_mood = ''neutral'', tiredness_level = 0, last_spoke = None,
        spoke_count_session = 0\<rparr>),
      (''sarah_spotter'',
       \<lparr>name = ''Sarah (Aviation Enthusiast)'', personality = ENTHUSIAST_SPOTTER,
        background = ''Aircraft spotter and aviation YouTuber'',
        speech_patterns =
          [''Oh wow, look at that!'', ''Did you know that aircraft type...'',
           ''That's a rare sight -'', ''Perfect example of...'', ''I love seeing...'',
           ''Fun fact about that...'', ''My subscribers would love this...''],
        expertise_areas = [''aircraft_recognition'', ''aviation_trivia'', ''spotting_locations''],
        response_likelihood = 3 / 10, professional_level = 6,
        current_mood = ''neutral'', tiredness_level = 0, last_spoke = None,
        spoke_count_session = 0\<rparr>)]"

text \<open>
  \<^verbatim>\<open>__init__\<close>, run when the clock shows \<open>t0\<close>: a default \<^verbatim>\<open>GuidanceContext()\<close>,
  \<^verbatim>\<open>last_guidance_time = datetime.now()\<close>, a cooldown of 3.0 seconds, nothing dispatched.
\<close>

definition initial_context :: GuidanceContext where
  "initial_context =
     \<lparr>aircraft_callsign = ''unknown'', flight_phase = ''unknown'', complexity_level = 1,
      traffic_density = 0, weather_conditions = ''clear'', emergency_situation = False,
      active_characters = [], conversation_flow = [], dominant_character = None\<rparr>"

definition initial_system :: "datetime \<Rightarrow> FlightGuidanceCharacterSystem" where
  "initial_system t0 =
     \<lparr>characters = initial_characters, guidance_context = initial_context,
      last_guidance_time = t0, guidance_cooldown_seconds = 3,
      max_active_characters = 2, character_rotation_minutes = 15,
      clock = t0, dispatched = []\<rparr>"

subsection \<open>The clock\<close>

text \<open>
  \<^verbatim>\<open>datetime.now()\<close>, \<open>d\<close> microseconds after the previous event: the clock never runs
  backwards.
\<close>

definition datetime_now ::
  "nat \<Rightarrow> FlightGuidanceCharacterSystem \<Rightarrow> datetime \<times> FlightGuidanceCharacterSystem" where
  "datetime_now d s = (clock s + int d, s\<lparr>clock := clock s + int d\<rparr>)"

subsection \<open>Context update and situation analysis\<close>

text \<open>\<^verbatim>\<open>_update_guidance_context(flight_data)\<close>.\<close>

definition update_guidance_context ::
  "FlightGuidanceCharacterSystem \<Rightarrow> flight_data \<Rightarrow> FlightGuidanceCharacterSystem" where
  "update_guidance_context s fd =
     (let ctx = (guidance_context s)
            \<lparr>aircraft_callsign := get (callsign fd) ''unknown aircraft'',
             flight_phase := get (phase fd) ''unknown'',
             traffic_density := get (traffic_count fd) 0,
             weather_conditions := get (weather fd) ''clear'',
             emergency_situation := get (emergency fd) False\<rparr>;
          complexity = 1;
          complexity = complexity + min (traffic_density ctx div 2) 3;
          complexity = (if emergency_situation ctx then complexity + 4 else complexity);
          complexity = (if get (weather_severity fd) 0 > 5 then complexity + 2 else complexity)
      in s\<lparr>guidance_context := ctx\<lparr>complexity_level := min complexity 10\<rparr>\<rparr>)"

text \<open>\<^verbatim>\<open>_analyze_situation(flight_data)\<close>; the dict it builds is the record.\<close>

definition analyze_situation ::
  "FlightGuidanceCharacterSystem \<Rightarrow> flight_data \<Rightarrow> SituationAnalysis" where
  "analyze_situation s fd =
     (let sa = \<lparr>situation_type = ''routine'', urgency_level = 1,
                requires_technical_guidance = False, traffic_concerns = [],
                weather_concerns = [], educational_opportunities = [],
                character_preferences = []\<rparr>;
          sa = (if traffic_density (guidance_context s) > 3
                then sa\<lparr>traffic_concerns := [''Multiple aircraft in vicinity''],
                        situation_type := ''traffic_advisory'',
                        urgency_level := max 3 (urgency_level sa),
                        requires_technical_guidance := True,
                        character_preferences :=
                          character_preferences sa @ [''dublin_control'', ''approach_control'']\<rparr>
                else sa);
          ph = get (phase fd) '''';
          sa = (if ph \<in> set [''takeoff'', ''landing'']
                then sa\<lparr>educational_opportunities :=
                          educational_opportunities sa @ [''critical_phase_procedures''],
                        character_preferences :=
                          character_preferences sa @ [''captain_murphy'', ''approach_control'']\<rparr>
                else if ph = ''cruise''
                then sa\<lparr>educational_opportunities :=
                          educational_opportunities sa @ [''navigation_efficiency''],
                        character_preferences :=
                          character_preferences sa @ [''captain_murphy'', ''sarah_spotter'']\<rparr>
                else sa);
          sa = (if get (altitude fd) 0 > 30000
                then sa\<lparr>educational_opportunities :=
                          educational_opportunities sa @ [''high_altitude_operations'']\<rparr>
                else sa);
          ty = get (aircraft_type fd) '''';
          sa = (if ty \<noteq> [] \<and> ty \<notin> set [''B737'', ''A320'', ''B777'']
                then sa\<lparr>educational_opportunities :=
                          educational_opportunities sa @ [''aircraft_recognition''],
                        character_preferences :=
                          character_preferences sa @ [''sarah_spotter'']\<rparr>
                else sa)
      in sa)"

subsection \<open>The gate\<close>

text \<open>
  \<^verbatim>\<open>_should_provide_guidance()\<close>: the clock is read \<open>d\<close> microseconds on, and \<open>r\<close> is
  the result of \<^verbatim>\<open>random.random()\<close> in the last line. The two cooldown checks come first,
  as in the source, before the emergency check.
\<close>

definition should_provide_guidance ::
  "FlightGuidanceCharacterSystem \<Rightarrow> nat \<Rightarrow> rat \<Rightarrow> bool \<times> FlightGuidanceCharacterSystem" where
  "should_provide_guidance s d r =
     (let (now, s1) = datetime_now d s in
      if total_seconds (now - last_guidance_time s1) < guidance_cooldown_seconds s1
      then (False, s1)
      else
        let base_cooldown = guidance_cooldown_seconds s1;
            complexity_factor = max 1 (11 - complexity_level (guidance_context s1));
            effective_cooldown = base_cooldown * of_int complexity_factor
        in if total_seconds (now - last_guidance_time s1) < effective_cooldown
           then (False, s1)
           else if emergency_situation (guidance_context s1) then (True, s1)
           else
             let base_probability = 3 / 10;
                 complexity_bonus = of_int (complexity_level (guidance_context s1)) * (5 / 100);
                 final_probability = min (base_probability + complexity_bonus) (8 / 10)
             in (r < final_probability, s1))"

subsection \<open>The selector\<close>

text \<open>
  The first loop of \<^verbatim>\<open>_select_responding_characters\<close>: a character that spoke less
  than 5 minutes before \<open>now\<close> is skipped, then one whose draw exceeds its
  \<^verbatim>\<open>response_likelihood\<close>; \<open>rnd char_name\<close> is the draw made for \<open>char_name\<close>.
\<close>

fun available_characters ::
  "(string \<times> GuidanceCharacter) list \<Rightarrow> datetime \<Rightarrow> (string \<Rightarrow> rat) \<Rightarrow> string list" where
  "available_characters [] now rnd = []"
| "available_characters ((char_name, ch) # rest) now rnd =
     (if (case last_spoke ch of
            None \<Rightarrow> False
          | Some t \<Rightarrow> total_seconds (now - t) / 60 < 5)
      then available_characters rest now rnd
      else if rnd char_name > response_likelihood ch
      then available_characters rest now rnd
      else char_name # available_characters rest now rnd)"

text \<open>\<^verbatim>\<open>self.characters[c]\<close>: KeyError for a name that is not a key.\<close>

definition lookup_character ::
  "(string \<times> GuidanceCharacter) list \<Rightarrow> string \<Rightarrow> py_error + GuidanceCharacter" where
  "lookup_character chars c =
     (case map_of chars c of None \<Rightarrow> Inl (KeyError c) | Some ch \<Rightarrow> Inr ch)"

text \<open>
  \<^verbatim>\<open>[c for c in preferred_characters if self.characters[c].professional_level >= 8]\<close>.
\<close>

fun professional_chars ::
  "(string \<times> GuidanceCharacter) list \<Rightarrow> string list \<Rightarrow> py_error + string list" where
  "professional_chars chars [] = Inr []"
| "professional_chars chars (c # cs) =
     (case lookup_character chars c of
        Inl e \<Rightarrow> Inl e
      | Inr ch \<Rightarrow>
          (case professional_chars chars cs of
             Inl e \<Rightarrow> Inl e
           | Inr ps \<Rightarrow> Inr (if professional_level ch \<ge> 8 then c # ps else ps)))"

text \<open>
  \<^verbatim>\<open>preferred_characters\<close>: the preferences that are available, in the order (and with
  the repetitions) of the preference list, or every available character when none is.
\<close>

definition preferred_characters :: "string list \<Rightarrow> SituationAnalysis \<Rightarrow> string list" where
  "preferred_characters available sa =
     (let preferred = filter (\<lambda>char_name. char_name \<in> set available) (character_preferences sa)
      in if preferred = [] then available else preferred)"

text \<open>
  The end of \<^verbatim>\<open>_select_responding_characters\<close> ("Normal selection"): a first speaker
  is chosen among the preferred names; for a routine situation with more than one
  preferred name and a draw below 0.2, a second one is chosen among the names other
  than the first.
\<close>

definition normal_selection ::
  "string list \<Rightarrow> SituationAnalysis \<Rightarrow> cycle_outcomes \<Rightarrow> py_error + string list" where
  "normal_selection preferred sa oc =
     (case random_choice (primary_choice oc) preferred of
        Inl e \<Rightarrow> Inl e
      | Inr first \<Rightarrow>
          if situation_type sa = ''routine'' \<and> length preferred > 1
             \<and> second_random oc < 2 / 10
          then
            (case random_choice (second_choice oc) (filter (\<lambda>c. c \<noteq> first) preferred) of
               Inl e \<Rightarrow> Inl e
             | Inr second_char \<Rightarrow> Inr [first, second_char])
          else Inr [first])"

text \<open>
  \<^verbatim>\<open>_select_responding_characters(situation_analysis)\<close> once \<open>now\<close> has been read.
\<close>

definition select_characters_at ::
  "(string \<times> GuidanceCharacter) list \<Rightarrow> datetime \<Rightarrow> SituationAnalysis \<Rightarrow> cycle_outcomes
     \<Rightarrow> py_error + string list" where
  "select_characters_at chars now sa oc =
     (let available = available_characters chars now (likelihood_random oc) in
      if available = [] then Inr []
      else
        let preferred = preferred_characters available sa;
            urgency = urgency_level sa
        in case (if urgency \<ge> 7 then professional_chars chars preferred else Inr []) of
             Inl e \<Rightarrow> Inl e
           | Inr professional \<Rightarrow>
               if urgency \<ge> 7 \<and> professional \<noteq> [] then
                 (case random_choice (primary_choice oc) professional of
                    Inl e \<Rightarrow> Inl e
                  | Inr c \<Rightarrow> Inr [c])
               else normal_selection preferred sa oc)"

text \<open>The method itself: it reads the clock first.\<close>

definition select_responding_characters ::
  "FlightGuidanceCharacterSystem \<Rightarrow> SituationAnalysis \<Rightarrow> cycle_outcomes
     \<Rightarrow> (py_error + string list) \<times> FlightGuidanceCharacterSystem" where
  "select_responding_characters s sa oc =
     (let (now, s1) = datetime_now (select_delay oc) s
      in (select_characters_at (characters s1) now sa oc, s1))"

subsection \<open>The message generator\<close>

text \<open>
  The dict \<^verbatim>\<open>templates\<close> of \<^verbatim>\<open>_generate_template_guidance\<close>, with the callsign filled
  in; it has no entry for two of the personalities.
\<close>

definition templates :: "string \<Rightarrow> GuidancePersonality \<Rightarrow> string list option" where
  "templates cs p =
     (case p of
        BORED_CONTROLLER \<Rightarrow> Some
          [''Right then '' @ cs @ '', traffic observed, suggest maintaining current altitude.'',
           cs @ '', been watching that traffic, no immediate concerns.'',
           ''Copy '' @ cs @ '', standard procedures apply here.'',
           ''*sigh* '' @ cs @ '', nothing I haven't seen before.'']
      | HARRIED_CONTROLLER \<Rightarrow> Some
          [cs @ '', traffic advisory, maintain separation.'',
           ''Quick one '' @ cs @ '' - traffic twelve o'clock, monitor.'',
           cs @ '', expedite climb if able.'',
           ''Keep it moving '' @ cs @ '', busy airspace today.'']
      | VETERAN_PILOT \<Rightarrow> Some
          [''In my experience '' @ cs @ '', watch that traffic pattern.'',
           cs @ '', old pilot trick - keep your head on a swivel.'',
           ''Reminds me of a flight I had '' @ cs @ '', stay alert.'',
           ''Pro tip '' @ cs @ '' - this altitude works well for this route.'']
      | ENTHUSIAST_SPOTTER \<Rightarrow> Some
          [''Oh wow '' @ cs @ '', great view of that traffic!'',
           cs @ '', perfect example of traffic management!'',
           ''Look at that '' @ cs @ '', textbook flying!'',
           ''Fun fact '' @ cs @ '' - this is a busy corridor!'']
      | _ \<Rightarrow> None)"

text \<open>
  \<^verbatim>\<open>_generate_template_guidance(character, situation_analysis, flight_data)\<close>: a template
  is chosen, then the bored controller prepends a filler when its draw is below 0.3 and
  the harried controller drops three words.
\<close>

definition generate_template_guidance ::
  "FlightGuidanceCharacterSystem \<Rightarrow> GuidanceCharacter \<Rightarrow> SituationAnalysis \<Rightarrow> flight_data
     \<Rightarrow> emission_outcomes \<Rightarrow> py_error + string" where
  "generate_template_guidance s ch sa fd eo =
     (let cs = aircraft_callsign (guidance_context s);
          character_templates =
            (case templates cs (personality ch) of
               Some ts \<Rightarrow> ts
             | None \<Rightarrow> the (templates cs BORED_CONTROLLER))
      in case random_choice (template_choice eo) character_templates of
           Inl e \<Rightarrow> Inl e
         | Inr guidance \<Rightarrow>
             if personality ch = BORED_CONTROLLER then
               (if filler_random eo < 3 / 10 then
                  (case random_choice (filler_choice eo)
                          [''*sigh*'', ''Right then,'', ''Ah,'', ''Well,''] of
                     Inl e \<Rightarrow> Inl e
                   | Inr sigh \<Rightarrow> Inr (sigh @ '' '' @ guidance))
                else Inr guidance)
             else if personality ch = HARRIED_CONTROLLER then
               Inr (replace '' very'' '''' (replace '' really'' '''' (replace ''please'' '''' guidance)))
             else Inr guidance)"

text \<open>\<^verbatim>\<open>_generate_character_guidance(character_name, situation_analysis, flight_data)\<close>.\<close>

definition generate_character_guidance ::
  "FlightGuidanceCharacterSystem \<Rightarrow> string \<Rightarrow> SituationAnalysis \<Rightarrow> flight_data
     \<Rightarrow> emission_outcomes \<Rightarrow> py_error + string" where
  "generate_character_guidance s character_name sa fd eo =
     (case lookup_character (characters s) character_name of
        Inl e \<Rightarrow> Inl e
      | Inr ch \<Rightarrow> generate_template_guidance s ch sa fd eo)"

text \<open>
  The dict \<^verbatim>\<open>emergency_templates\<close> of \<^verbatim>\<open>_generate_emergency_guidance\<close>, keyed by
  character name.
\<close>

definition emergency_templates :: "string \<Rightarrow> string \<Rightarrow> string list option" where
  "emergency_templates cs =
     map_of
       [(''dublin_control'',
         [cs @ '', understand emergency. State intentions, assistance available.'',
          cs @ '', roger emergency. Clearing airspace, priority handling.'',
          cs @ '', emergency services alerted. Proceed as required.'']),
        (''approach_control'',
         [cs @ '', emergency acknowledged. Immediate vectors available.'',
          cs @ '', priority approach cleared. Emergency equipment standing by.'',
          cs @ '', understand emergency. Runway available, cleared immediate.'']),
        (''captain_murphy'',
         [cs @ '', stay calm. Run your emergency checklist first.'',
          cs @ '', been through this before. Follow procedures, you'll be fine.'',
          cs @ '', emergency training kicks in now. Trust your procedures.''])]"

text \<open>\<^verbatim>\<open>_generate_emergency_guidance(character_name, emergency_context)\<close>.\<close>

definition generate_emergency_guidance ::
  "FlightGuidanceCharacterSystem \<Rightarrow> string \<Rightarrow> emission_outcomes \<Rightarrow> py_error + string" where
  "generate_emergency_guidance s character_name eo =
     (case lookup_character (characters s) character_name of
        Inl e \<Rightarrow> Inl e
      | Inr ch \<Rightarrow>
          (let cs = aircraft_callsign (guidance_context s);
               ts = (case emergency_templates cs character_name of
                       Some ts \<Rightarrow> ts
                     | None \<Rightarrow> the (emergency_templates cs ''dublin_control''))
           in random_choice (template_choice eo) ts))"

subsection \<open>Dispatch and the processing cycle\<close>

text \<open>
  \<^verbatim>\<open>_output_guidance(character_name, guidance)\<close>: every callback is called with the
  pair (an exception of a callback is caught and logged), then \<^verbatim>\<open>last_guidance_time\<close>
  is set from the clock. Nothing else of the system is written.
\<close>

definition output_guidance ::
  "FlightGuidanceCharacterSystem \<Rightarrow> string \<Rightarrow> string \<Rightarrow> emission_outcomes
     \<Rightarrow> FlightGuidanceCharacterSystem" where
  "output_guidance s character_name guidance eo =
     (let s1 = s\<lparr>clock := clock s + int (dispatch_delay eo)\<rparr>;
          s2 = s1\<lparr>dispatched := dispatched s1 @ [(clock s1, character_name, guidance)]\<rparr>;
          (now, s3) = datetime_now (output_delay eo) s2
      in s3\<lparr>last_guidance_time := now\<rparr>)"

text \<open>
  \<^verbatim>\<open>character.last_spoke = datetime.now(); character.spoke_count_session += 1\<close> on the
  object stored under \<open>character_name\<close>.
\<close>

definition mark_spoke ::
  "string \<Rightarrow> datetime \<Rightarrow> (string \<times> GuidanceCharacter) list \<Rightarrow> (string \<times> GuidanceCharacter) list" where
  "mark_spoke character_name t chars =
     map (\<lambda>(n, ch). if n = character_name
                     then (n, ch\<lparr>last_spoke := Some t,
                                  spoke_count_session := spoke_count_session ch + 1\<rparr>)
                     else (n, ch)) chars"

text \<open>
  The body of the loop of \<^verbatim>\<open>process_flight_situation\<close> for one character whose
  guidance is not empty: dispatch, the character's state, the history entry, and the
  two-second sleep when \<open>several\<close> (\<^verbatim>\<open>len(responding_characters) > 1\<close>) holds.
\<close>

definition emit ::
  "bool \<Rightarrow> SituationAnalysis \<Rightarrow> emission_outcomes \<Rightarrow> string \<Rightarrow> string
     \<Rightarrow> FlightGuidanceCharacterSystem \<Rightarrow> FlightGuidanceCharacterSystem" where
  "emit several sa eo character_name guidance s =
     (let s1 = output_guidance s character_name guidance eo;
          (t, s2) = datetime_now (spoke_delay eo) s1;
          s3 = s2\<lparr>characters := mark_spoke character_name t (characters s2)\<rparr>;
          (t', s4) = datetime_now (history_delay eo) s3;
          s5 = s4\<lparr>guidance_context := (guidance_context s4)
                   \<lparr>conversation_flow := conversation_flow (guidance_context s4) @
                      [\<lparr>timestamp = t', character = character_name,
                        message = guidance, situation = situation_type sa\<rparr>]\<rparr>\<rparr>
      in if several
         then s5\<lparr>clock := clock s5 + 2000000 + int (sleep_extra eo)\<rparr>
         else s5)"

text \<open>
  The loop \<^verbatim>\<open>for character_name in responding_characters\<close>; \<open>i\<close> counts the
  iterations. An exception leaves the loop with the state reached.
\<close>

fun guidance_loop ::
  "bool \<Rightarrow> SituationAnalysis \<Rightarrow> flight_data \<Rightarrow> (nat \<Rightarrow> emission_outcomes) \<Rightarrow> nat
     \<Rightarrow> string list \<Rightarrow> FlightGuidanceCharacterSystem
     \<Rightarrow> py_error option \<times> FlightGuidanceCharacterSystem" where
  "guidance_loop several sa fd eos i [] s = (None, s)"
| "guidance_loop several sa fd eos i (character_name # rest) s =
     (case generate_character_guidance s character_name sa fd (eos i) of
        Inl e \<Rightarrow> (Some e, s)
      | Inr guidance \<Rightarrow>
          if guidance \<noteq> []
          then guidance_loop several sa fd eos (Suc i) rest
                 (emit several sa (eos i) character_name guidance s)
          else guidance_loop several sa fd eos (Suc i) rest s)"

text \<open>
  \<^verbatim>\<open>process_flight_situation(flight_data)\<close>. The result is the exception raised, if
  any, and the system as the call leaves it.
\<close>

definition process_flight_situation ::
  "FlightGuidanceCharacterSystem \<Rightarrow> flight_data \<Rightarrow> cycle_outcomes
     \<Rightarrow> py_error option \<times> FlightGuidanceCharacterSystem" where
  "process_flight_situation s fd oc =
     (let s1 = update_guidance_context s fd;
          (ok, s2) = should_provide_guidance s1 (gate_delay oc) (gate_random oc)
      in if \<not> ok then (None, s2)
         else
           let situation_analysis = analyze_situation s2 fd;
               (selected, s3) = select_responding_characters s2 situation_analysis oc
           in case selected of
                Inl e \<Rightarrow> (Some e, s3)
              | Inr responding_characters \<Rightarrow>
                  guidance_loop (length responding_characters > 1) situation_analysis fd
                    (emission oc) 0 responding_characters s3)"

text \<open>
  Repeated cycles, one per snapshot, each run to its end before the next (the caller
  awaits the call and catches what it raises).
\<close>

fun process_flight_situations ::
  "FlightGuidanceCharacterSystem \<Rightarrow> (flight_data \<times> cycle_outcomes) list
     \<Rightarrow> FlightGuidanceCharacterSystem" where
  "process_flight_situations s [] = s"
| "process_flight_situations s ((fd, oc) # rest) =
     process_flight_situations (snd (process_flight_situation s fd oc)) rest"

subsection \<open>The emergency and force-speak entry points\<close>

text \<open>
  \<^verbatim>\<open>handle_emergency_situation(emergency_data)\<close>; the argument is only passed on to
  \<^verbatim>\<open>_generate_emergency_guidance\<close>, which does not read it.
\<close>

definition handle_emergency_situation ::
  "FlightGuidanceCharacterSystem \<Rightarrow> emission_outcomes
     \<Rightarrow> py_error option \<times> FlightGuidanceCharacterSystem" where
  "handle_emergency_situation s eo =
     (let s1 = s\<lparr>guidance_context := (guidance_context s)
                  \<lparr>emergency_situation := True, complexity_level := 10\<rparr>\<rparr>;
          professional = map fst (filter (\<lambda>(n, ch). professional_level ch \<ge> 8) (characters s1))
      in case professional of
           [] \<Rightarrow> (None, s1)
         | selected_char # _ \<Rightarrow>
             (case generate_emergency_guidance s1 selected_char eo of
                Inl e \<Rightarrow> (Some e, s1)
              | Inr emergency_guidance \<Rightarrow>
                  if emergency_guidance \<noteq> []
                  then (None, output_guidance s1 selected_char emergency_guidance eo)
                  else (None, s1)))"

text \<open>
  \<^verbatim>\<open>force_character_guidance(character_name, situation_override)\<close>: the value returned
  (\<open>None\<close> for an unknown character) or the exception, and the system.
\<close>

definition force_character_guidance ::
  "FlightGuidanceCharacterSystem \<Rightarrow> string \<Rightarrow> string option \<Rightarrow> emission_outcomes
     \<Rightarrow> (py_error + string option) \<times> FlightGuidanceCharacterSystem" where
  "force_character_guidance s character_name situation_override eo =
     (if character_name \<notin> fst ` set (characters s) then (Inr None, s)
      else
        let mock_situation =
              \<lparr>situation_type =
                 (case situation_override of
                    None \<Rightarrow> ''routine''
                  | Some v \<Rightarrow> if v = [] then ''routine'' else v),
               urgency_level = 3, requires_technical_guidance = False,
               traffic_concerns = [], weather_concerns = [],
               educational_opportunities = [''general_guidance''],
               character_preferences = [character_name]\<rparr>;
            mock_flight_data =
              \<lparr>callsign = Some (aircraft_callsign (guidance_context s)),
               phase = Some (flight_phase (guidance_context s)),
               traffic_count = None, weather = None, emergency = None,
               weather_severity = None, altitude = Some 25000, aircraft_type = None\<rparr>
        in case generate_character_guidance s character_name mock_situation mock_flight_data eo of
             Inl e \<Rightarrow> (Inl e, s)
           | Inr guidance \<Rightarrow>
               if guidance \<noteq> []
               then (Inr (Some guidance), output_guidance s character_name guidance eo)
               else (Inr (Some guidance), s))"

section \<open>Auxiliary definitions for the proofs\<close>

text \<open>
  Names for quantities that the source computes inline, and for the invariants of the
  proofs. None of them changes the model above.
\<close>

text \<open>
  Every digit word of \<open>AVIATION_NUMBERS\<close> has a second letter other than \<open>l\<close>, which
  separates the feet rendering from a phrase that starts with "Flight Level".
\<close>

definition second_not_l :: "string \<Rightarrow> bool" where
  "second_not_l s = (case s of a # b # r \<Rightarrow> b \<noteq> CHR ''l'' | _ \<Rightarrow> False)"

text \<open>
  The locals \<^verbatim>\<open>effective_cooldown\<close> and \<^verbatim>\<open>final_probability\<close> of
  \<^verbatim>\<open>_should_provide_guidance\<close>.
\<close>

definition effective_cooldown :: "FlightGuidanceCharacterSystem \<Rightarrow> rat" where
  "effective_cooldown s =
     guidance_cooldown_seconds s * of_int (max 1 (11 - complexity_level (guidance_context s)))"

definition final_probability :: "FlightGuidanceCharacterSystem \<Rightarrow> rat" where
  "final_probability s =
     min (3 / 10 + of_int (complexity_level (guidance_context s)) * (5 / 100)) (8 / 10)"

text \<open>The character names of the dispatches, in order.\<close>

definition speakers :: "FlightGuidanceCharacterSystem \<Rightarrow> string list" where
  "speakers s = map (\<lambda>(t, c, g). c) (dispatched s)"

text \<open>
  The state in which the loop of a cycle starts, the selector's result in that cycle,
  whether the gate lets the cycle through, and the names the cycle then speaks for.
\<close>

definition cycle_start ::
  "FlightGuidanceCharacterSystem \<Rightarrow> flight_data \<Rightarrow> cycle_outcomes
     \<Rightarrow> FlightGuidanceCharacterSystem" where
  "cycle_start s fd oc =
     (update_guidance_context s fd)
       \<lparr>clock := clock s + int (gate_delay oc) + int (select_delay oc)\<rparr>"

definition cycle_selection ::
  "FlightGuidanceCharacterSystem \<Rightarrow> flight_data \<Rightarrow> cycle_outcomes \<Rightarrow> py_error + string list" where
  "cycle_selection s fd oc =
     select_characters_at (characters s)
       (clock s + int (gate_delay oc) + int (select_delay oc))
       (analyze_situation (update_guidance_context s fd) fd) oc"

definition gate_open :: "FlightGuidanceCharacterSystem \<Rightarrow> flight_data \<Rightarrow> cycle_outcomes \<Rightarrow> bool" where
  "gate_open s fd oc =
     fst (should_provide_guidance (update_guidance_context s fd) (gate_delay oc) (gate_random oc))"

definition cycle_speakers ::
  "FlightGuidanceCharacterSystem \<Rightarrow> flight_data \<Rightarrow> cycle_outcomes \<Rightarrow> string list" where
  "cycle_speakers s fd oc =
     (if gate_open s fd oc
      then (case cycle_selection s fd oc of Inl e \<Rightarrow> [] | Inr sel \<Rightarrow> sel)
      else [])"

text \<open>
  The invariant behind the per-character rest: a character's \<^verbatim>\<open>last_spoke\<close> is not
  in the future, every dispatch of a character is no later than its \<^verbatim>\<open>last_spoke\<close>,
  and dispatches of one character are 300000000 microseconds (5 minutes) apart.
\<close>

definition last_spoke_of :: "(string \<times> GuidanceCharacter) list \<Rightarrow> string \<Rightarrow> datetime option" where
  "last_spoke_of chars c = (case map_of chars c of None \<Rightarrow> None | Some ch \<Rightarrow> last_spoke ch)"

definition spaced :: "(datetime \<times> string \<times> string) list \<Rightarrow> bool" where
  "spaced entries = sorted_wrt (\<lambda>(t, c, g) (t', c', g'). c = c' \<longrightarrow> t + 300000000 \<le> t') entries"

definition rested :: "FlightGuidanceCharacterSystem \<Rightarrow> string \<Rightarrow> bool" where
  "rested s c =
     (case last_spoke_of (characters s) c of None \<Rightarrow> True | Some t \<Rightarrow> t + 300000000 \<le> clock s)"

definition cooldown_inv :: "FlightGuidanceCharacterSystem \<Rightarrow> bool" where
  "cooldown_inv s =
     (distinct (map fst (characters s))
      \<and> (\<forall>c t. last_spoke_of (characters s) c = Some t \<longrightarrow> t \<le> clock s)
      \<and> (\<forall>(t, c, g) \<in> set (dispatched s).
            \<exists>t'. last_spoke_of (characters s) c = Some t' \<and> t \<le> t')
      \<and> spaced (dispatched s))"

section \<open>Concrete snapshots and outcomes\<close>

text \<open>
  Inputs at which the theorems below are evaluated: snapshots as the simulator builds
  them, and outcomes of the draws with every \<^verbatim>\<open>random.random()\<close> in \<open>[0, 1)\<close>.
\<close>

definition plain_emission :: emission_outcomes where
  "plain_emission =
     \<lparr>template_choice = 0, filler_random = 1 / 2, filler_choice = 0,
      dispatch_delay = 0, output_delay = 0, spoke_delay = 0,
      history_delay = 0, sleep_extra = 0\<rparr>"

definition quiet_snapshot :: flight_data where
  "quiet_snapshot =
     \<lparr>callsign = Some ''EI-SIM'', phase = None, traffic_count = None,
      weather = None, emergency = None, weather_severity = None,
      altitude = None, aircraft_type = None\<rparr>"

definition emergency_snapshot :: flight_data where
  "emergency_snapshot =
     \<lparr>callsign = Some ''EI-SIM'', phase = None, traffic_count = None,
      weather = None, emergency = Some True, weather_severity = None,
      altitude = None, aircraft_type = None\<rparr>"

definition cessna_cruise :: flight_data where
  "cessna_cruise =
     \<lparr>callsign = Some ''EI-XYZ'', phase = Some ''cruise'', traffic_count = None,
      weather = None, emergency = None, weather_severity = None,
      altitude = Some 5000, aircraft_type = Some ''C172''\<rparr>"

definition urgent_analysis :: SituationAnalysis where
  "urgent_analysis =
     \<lparr>situation_type = ''traffic_advisory'', urgency_level = 7,
      requires_technical_guidance = True, traffic_concerns = [],
      weather_concerns = [], educational_opportunities = [],
      character_preferences = []\<rparr>"

definition dublin_only :: cycle_outcomes where
  "dublin_only =
     \<lparr>gate_delay = 400000000, gate_random = 0, select_delay = 0,
      likelihood_random = (\<lambda>c. if c = ''dublin_control'' then 0 else 95 / 100),
      primary_choice = 0, second_random = 1 / 2, second_choice = 0,
      emission = (\<lambda>i. \<lparr>template_choice = 2, filler_random = 1 / 2, filler_choice = 0,
                        dispatch_delay = 0, output_delay = 0, spoke_delay = 0,
                        history_delay = 0, sleep_extra = 0\<rparr>)\<rparr>"

definition only_sarah :: cycle_outcomes where
  "only_sarah =
     \<lparr>gate_delay = 60000000, gate_random = 1 / 10, select_delay = 0,
      likelihood_random = (\<lambda>c. if c = ''sarah_spotter'' then 1 / 10 else 95 / 100),
      primary_choice = 0, second_random = 1 / 10, second_choice = 0,
      emission = (\<lambda>i. plain_emission)\<rparr>"

text \<open>
  States of the reference cast in which a cycle with \<open>quiet_snapshot\<close> and
  \<open>dublin_only\<close> passes the gate and selects \<^verbatim>\<open>dublin_control\<close> alone.
\<close>

definition dublin_ready :: "FlightGuidanceCharacterSystem \<Rightarrow> bool" where
  "dublin_ready s =
     (guidance_cooldown_seconds s = 3 \<and> last_guidance_time s \<le> clock s
      \<and> (\<exists>d a c sp.
            characters s = [(''dublin_control'', d), (''approach_control'', a),
                            (''captain_murphy'', c), (''sarah_spotter'', sp)]
            \<and> response_likelihood d = 8 / 10 \<and> response_likelihood a = 6 / 10
            \<and> response_likelihood c = 4 / 10 \<and> response_likelihood sp = 3 / 10
            \<and> (case last_spoke d of None \<Rightarrow> True | Some t \<Rightarrow> t \<le> clock s)))"

section \<open>Transcription: altitude rendering\<close>

lemma second_not_l_Cons [simp]: "second_not_l (a # b # r) = (b \<noteq> CHR ''l'')"
  by (simp add: second_not_l_def)

lemma second_not_l_append: "second_not_l s \<Longrightarrow> second_not_l (s @ t)"
  by (auto simp: second_not_l_def split: list.splits)

lemma second_not_l_join: "second_not_l w \<Longrightarrow> second_not_l (join sep (w # ws))"
  by (cases ws) (auto simp: second_not_l_append)

lemma second_not_l_no_FL: "second_not_l s \<Longrightarrow> \<not> prefix ''Flight Level'' s"
  by (auto simp: second_not_l_def prefix_def split: list.splits)

lemma aviation_number_word: "aviation_number k = Inr w \<Longrightarrow> second_not_l w"
  by (auto simp: aviation_number_def AVIATION_NUMBERS_def second_not_l_def split: if_splits)

lemma aviation_digits_words:
  "aviation_digits s = Inr ws \<Longrightarrow> length ws = length s \<and> list_all second_not_l ws"
  by (induction s arbitrary: ws) (auto split: sum.splits dest: aviation_number_word)

lemma str_nat_nonempty: "str_nat n \<noteq> []"
  by (subst str_nat.simps) simp

lemma str_int_nonempty: "str_int i \<noteq> []"
  by (simp add: str_int_def str_nat_nonempty)

lemma aviation_digits_str_int:
  assumes "aviation_digits (str_int i) = Inr ws"
  shows "second_not_l (join sep ws)"
proof -
  from assms have l: "length ws = length (str_int i)" and a: "list_all second_not_l ws"
    using aviation_digits_words by blast+
  from l str_int_nonempty obtain w ws' where "ws = w # ws'"
    by (cases ws) auto
  with a show ?thesis by (simp add: second_not_l_join)
qed

lemma str_nat_digits: "set (str_nat n) \<subseteq> set ''0123456789''"
proof (induction n rule: str_nat.induct)
  case (1 n)
  have d: "\<And>k::nat. k < 10 \<Longrightarrow> ''0123456789'' ! k \<in> set ''0123456789''"
    by (rule nth_mem) simp
  show ?case
  proof (cases "n < 10")
    case True
    then show ?thesis using d[of n] by (subst str_nat.simps) simp
  next
    case False
    have "n mod 10 < 10" by simp
    with False 1 d[of "n mod 10"] show ?thesis by (subst str_nat.simps) simp
  qed
qed

lemma aviation_digits_total:
  "set s \<subseteq> set ''0123456789'' \<Longrightarrow> \<exists>ws. aviation_digits s = Inr ws"
  by (induction s) (auto simp: aviation_number_def AVIATION_NUMBERS_def split: sum.splits)

lemma thousands_word:
  assumes "thousands_part t = Inr p"
  shows "second_not_l p"
proof (cases "t = 1")
  case True
  with assms show ?thesis by (auto simp: thousands_part_def)
next
  case False
  with assms obtain ds where "aviation_digits (str_int t) = Inr ds"
    and "p = join '' '' ds @ '' Thousand''"
    by (auto simp: thousands_part_def split: sum.splits)
  then show ?thesis
    by (simp add: second_not_l_append aviation_digits_str_int)
qed

lemma feet_no_FL:
  assumes "pronounce_altitude_feet a = Inr s"
  shows "second_not_l s"
proof -
  consider (zero) "a = 0"
    | (thousands) "a \<noteq> 0" "a \<ge> 1000"
    | (hundreds) "a \<noteq> 0" "\<not> a \<ge> 1000" "a \<ge> 100"
    | (one) "a \<noteq> 0" "\<not> a \<ge> 1000" "\<not> a \<ge> 100" "a < 10"
    | (two) "a \<noteq> 0" "\<not> a \<ge> 1000" "\<not> a \<ge> 100" "\<not> a < 10"
    by blast
  then show ?thesis
  proof cases
    case zero
    with assms show ?thesis by (auto simp: pronounce_altitude_feet_def)
  next
    case thousands
    with assms obtain p1 ps where
      p1: "thousands_part (a div 1000) = Inr p1"
      and s: "s = join '' '' (p1 # ps) @ '' feet''"
      by (auto simp: pronounce_altitude_feet_def Let_def split: sum.splits)
    from thousands_word[OF p1] s show ?thesis
      by (simp add: second_not_l_append second_not_l_join)
  next
    case hundreds
    with assms obtain w ps where
      w: "aviation_number (str_int (a div 100)) = Inr w"
      and s: "s = join '' '' ((w @ '' Hundred'') # ps) @ '' feet''"
      by (auto simp: pronounce_altitude_feet_def Let_def split: sum.splits)
    from aviation_number_word[OF w] s show ?thesis
      by (simp add: second_not_l_append second_not_l_join)
  next
    case one
    with assms obtain w where
      w: "aviation_number (str_int a) = Inr w" and s: "s = w @ '' feet''"
      by (auto simp: pronounce_altitude_feet_def split: sum.splits)
    from aviation_number_word[OF w] s show ?thesis
      by (simp add: second_not_l_append)
  next
    case two
    with assms obtain ds where
      ds: "aviation_digits (str_int a) = Inr ds" and s: "s = join '' '' ds @ '' feet''"
      by (auto simp: pronounce_altitude_feet_def split: sum.splits)
    from aviation_digits_str_int[OF ds] s show ?thesis
      by (simp add: second_not_l_append)
  qed
qed

lemma flight_level_result:
  assumes "a \<ge> 18000" "a mod 100 = 0"
  shows "\<exists>s. pronounce_altitude a = Inr s \<and> prefix ''Flight Level'' s"
proof -
  from assms have fl: "\<not> a div 100 < 100" by simp
  have "set (str_int (a div 100)) \<subseteq> set ''0123456789''"
    using fl str_nat_digits[of "nat (a div 100)"] by (simp add: str_int_def)
  then obtain ds where "aviation_digits (str_int (a div 100)) = Inr ds"
    using aviation_digits_total by blast
  with assms fl show ?thesis
    by (simp add: pronounce_altitude_def Let_def)
qed

text \<open>
  Claim C9. For every integer altitude \<open>a\<close>, \<open>pronounce_altitude a\<close> returns a phrase that
  begins with "Flight Level" if and only if \<open>a \<ge> 18000\<close> and \<open>a mod 100 = 0\<close>; for every
  other altitude the outcome is that of the grouped-feet rendering
  \<open>pronounce_altitude_feet\<close>; and 3500 is rendered "Three Thousand Five Hundred feet".
\<close>

theorem pronounce_altitude_flight_level:
  "((\<exists>s. pronounce_altitude a = Inr s \<and> prefix ''Flight Level'' s)
      = (a \<ge> 18000 \<and> a mod 100 = 0))
   \<and> (\<not> (a \<ge> 18000 \<and> a mod 100 = 0)
        \<longrightarrow> pronounce_altitude a = pronounce_altitude_feet a)
   \<and> pronounce_altitude 3500 = Inr ''Three Thousand Five Hundred feet''"
proof (intro conjI)
  show "(\<exists>s. pronounce_altitude a = Inr s \<and> prefix ''Flight Level'' s)
          = (a \<ge> 18000 \<and> a mod 100 = 0)"
  proof
    assume "\<exists>s. pronounce_altitude a = Inr s \<and> prefix ''Flight Level'' s"
    then obtain s where s: "pronounce_altitude a = Inr s" and p: "prefix ''Flight Level'' s"
      by blast
    show "a \<ge> 18000 \<and> a mod 100 = 0"
    proof (rule ccontr)
      assume "\<not> (a \<ge> 18000 \<and> a mod 100 = 0)"
      with s have "pronounce_altitude_feet a = Inr s"
        by (simp add: pronounce_altitude_def)
      from feet_no_FL[OF this] p show False
        using second_not_l_no_FL by blast
    qed
  next
    assume "a \<ge> 18000 \<and> a mod 100 = 0"
    then show "\<exists>s. pronounce_altitude a = Inr s \<and> prefix ''Flight Level'' s"
      by (simp add: flight_level_result)
  qed
next
  show "\<not> (a \<ge> 18000 \<and> a mod 100 = 0)
          \<longrightarrow> pronounce_altitude a = pronounce_altitude_feet a"
    by (simp add: pronounce_altitude_def)
next
  show "pronounce_altitude 3500 = Inr ''Three Thousand Five Hundred feet''"
    by (simp add: pronounce_altitude_def pronounce_altitude_feet_def str_int_def
        str_nat.simps aviation_number_def AVIATION_NUMBERS_def remainder_parts_def
        thousands_part_def hundreds_part_def)
qed

text \<open>The same at 35000 (a flight level) and at 18050 (not a multiple of 100).\<close>

theorem pronounce_altitude_flight_level_witness:
  "pronounce_altitude 35000 = Inr ''Flight Level Three Five Zero''
   \<and> prefix ''Flight Level'' ''Flight Level Three Five Zero''
   \<and> pronounce_altitude 18050 = pronounce_altitude_feet 18050
   \<and> pronounce_altitude 18050 = Inr ''One Eight Thousand Five Zero feet''"
  using pronounce_altitude_flight_level[of 18050] pronounce_altitude_flight_level[of 35000]
  by (simp add: pronounce_altitude_def pronounce_altitude_feet_def str_int_def
        str_nat.simps aviation_number_def AVIATION_NUMBERS_def remainder_parts_def
        thousands_part_def hundreds_part_def)

section \<open>Transcription: inputs on which a function raises\<close>

text \<open>
  Claim C8. The transcription functions are claimed never to raise and to return an
  unparsable input unchanged. The code raises KeyError instead: a negative altitude
  reaches \<^verbatim>\<open>AVIATION_NUMBERS[str(altitude)]\<close> with the key "-5", and a time string with
  a colon is never checked for digits, so "ab:cd" and the example "2:30 PM" of the
  function's own comment reach \<^verbatim>\<open>AVIATION_NUMBERS[d]\<close> with a key that is not a digit.
\<close>

theorem transcription_raises_KeyError:
  "pronounce_altitude (- 5) = Inl (KeyError ''-5'')
   \<and> pronounce_time ''ab:cd'' = Inl (KeyError ''a'')
   \<and> pronounce_time ''2:30 PM'' = Inl (KeyError '' '')"
  by (simp add: pronounce_altitude_def pronounce_altitude_feet_def str_int_def
        str_nat.simps pronounce_time_def time_digits_of_def strip_def isspace_def
        zfill_def aviation_number_def AVIATION_NUMBERS_def)

section \<open>The message generator never returns an empty guidance\<close>

lemma replace_keeps:
  "x \<in> set s \<Longrightarrow> x \<notin> set old \<Longrightarrow> x \<in> set (replace old new s)"
proof (induction old new s rule: replace.induct)
  case (1 old new)
  then show ?case by simp
next
  case (2 old new c cs)
  show ?case
  proof (cases "old \<noteq> [] \<and> prefix old (c # cs)")
    case True
    then obtain r where r: "c # cs = old @ r" by (auto simp: prefix_def)
    with 2 have "x \<in> set r" by (metis Un_iff set_append)
    moreover from r have "drop (length old) (c # cs) = r" by simp
    ultimately have "x \<in> set (replace old new (drop (length old) (c # cs)))"
      using 2 True by simp
    with True show ?thesis by simp
  next
    case False
    with 2 show ?thesis by auto
  qed
qed

lemma random_choice_member:
  "xs \<noteq> [] \<Longrightarrow> \<exists>x. random_choice k xs = Inr x \<and> x \<in> set xs"
  by (simp add: random_choice_def)

lemma templates_stop:
  assumes "t \<in> set (case templates cs p of Some ts \<Rightarrow> ts
                       | None \<Rightarrow> the (templates cs BORED_CONTROLLER))"
  shows "t \<noteq> [] \<and> (p = HARRIED_CONTROLLER \<longrightarrow> CHR ''.'' \<in> set t)"
  using assms by (cases p) (auto simp: templates_def)

lemma templates_nonempty:
  "(case templates cs p of Some ts \<Rightarrow> ts | None \<Rightarrow> the (templates cs BORED_CONTROLLER)) \<noteq> []"
  by (cases p) (auto simp: templates_def)

lemma template_guidance_nonempty:
  "\<exists>g. generate_template_guidance s ch sa fd eo = Inr g \<and> g \<noteq> []"
proof -
  let ?cs = "aircraft_callsign (guidance_context s)"
  let ?ts = "case templates ?cs (personality ch) of Some ts \<Rightarrow> ts
             | None \<Rightarrow> the (templates ?cs BORED_CONTROLLER)"
  from random_choice_member[OF templates_nonempty] obtain t where
    t: "random_choice (template_choice eo) ?ts = Inr t" and tin: "t \<in> set ?ts"
    by blast
  from templates_stop[OF tin] have tne: "t \<noteq> []"
    and dot: "personality ch = HARRIED_CONTROLLER \<Longrightarrow> CHR ''.'' \<in> set t"
    by auto
  consider (bored) "personality ch = BORED_CONTROLLER"
    | (harried) "personality ch \<noteq> BORED_CONTROLLER" "personality ch = HARRIED_CONTROLLER"
    | (other) "personality ch \<noteq> BORED_CONTROLLER" "personality ch \<noteq> HARRIED_CONTROLLER"
    by blast
  then show ?thesis
  proof cases
    case bored
    obtain f where "random_choice (filler_choice eo)
                      [''*sigh*'', ''Right then,'', ''Ah,'', ''Well,''] = Inr f"
      using random_choice_member[of "[''*sigh*'', ''Right then,'', ''Ah,'', ''Well,'']"]
      by auto
    with bored t tne show ?thesis
      by (simp add: generate_template_guidance_def Let_def)
  next
    case harried
    have "CHR ''.'' \<in> set (replace '' very'' '''' (replace '' really'' ''''
                              (replace ''please'' '''' t)))"
      using dot[OF harried(2)] by (intro replace_keeps) simp_all
    then have "replace '' very'' '''' (replace '' really'' '''' (replace ''please'' '''' t)) \<noteq> []"
      by auto
    with harried t show ?thesis
      by (simp add: generate_template_guidance_def Let_def)
  next
    case other
    with t tne show ?thesis
      by (simp add: generate_template_guidance_def Let_def)
  qed
qed

lemma lookup_character_key:
  "c \<in> fst ` set chars \<Longrightarrow> \<exists>ch. lookup_character chars c = Inr ch"
  by (cases "map_of chars c") (auto simp: lookup_character_def map_of_eq_None_iff)

lemma character_guidance_nonempty:
  assumes "c \<in> fst ` set (characters s)"
  shows "\<exists>g. generate_character_guidance s c sa fd eo = Inr g \<and> g \<noteq> []"
proof -
  from lookup_character_key[OF assms] obtain ch where
    "lookup_character (characters s) c = Inr ch" by blast
  then show ?thesis
    using template_guidance_nonempty[of s ch sa fd eo]
    by (simp add: generate_character_guidance_def)
qed

lemma emergency_guidance_nonempty:
  assumes "c \<in> fst ` set (characters s)"
  shows "\<exists>g. generate_emergency_guidance s c eo = Inr g \<and> g \<noteq> []"
proof -
  let ?cs = "aircraft_callsign (guidance_context s)"
  let ?ts = "case emergency_templates ?cs c of Some ts \<Rightarrow> ts
             | None \<Rightarrow> the (emergency_templates ?cs ''dublin_control'')"
  have all: "?ts \<noteq> [] \<and> [] \<notin> set ?ts"
    by (auto simp: emergency_templates_def)
  then obtain t where "random_choice (template_choice eo) ?ts = Inr t" "t \<in> set ?ts"
    using random_choice_member by blast
  moreover from lookup_character_key[OF assms] obtain ch where
    "lookup_character (characters s) c = Inr ch" by blast
  ultimately show ?thesis using all
    by (auto simp: generate_emergency_guidance_def Let_def)
qed

section \<open>The selector\<close>

lemma available_subset_keys:
  "set (available_characters chars now rnd) \<subseteq> fst ` set chars"
  by (induction chars now rnd rule: available_characters.induct) auto

lemma preferred_subset_available:
  "set (preferred_characters available sa) \<subseteq> set available"
  by (auto simp: preferred_characters_def Let_def)

lemma professional_chars_result:
  assumes "set cs \<subseteq> fst ` set chars"
  shows "\<exists>ps. professional_chars chars cs = Inr ps
           \<and> set ps = {c \<in> set cs. \<exists>ch. lookup_character chars c = Inr ch \<and> professional_level ch \<ge> 8}"
  using assms
proof (induction cs)
  case Nil
  then show ?case by simp
next
  case (Cons c cs)
  then obtain ps where ps: "professional_chars chars cs = Inr ps"
    and sp: "set ps = {c \<in> set cs. \<exists>ch. lookup_character chars c = Inr ch \<and> professional_level ch \<ge> 8}"
    by auto
  from Cons.prems have "c \<in> fst ` set chars" by simp
  then obtain ch where ch: "lookup_character chars c = Inr ch"
    using lookup_character_key by blast
  show ?case using ps sp ch by auto
qed

text \<open>
  Claim C6. For an analysis with \<open>urgency_level \<ge> 7\<close>, if some name among the preferred
  characters (the available ones, filtered by the preferences) has
  \<open>professional_level \<ge> 8\<close>, the selector returns exactly one name, that character has
  \<open>professional_level \<ge> 8\<close>, and no second speaker is added, for every outcome of the
  draws.
\<close>

theorem urgent_selection_professional:
  assumes urgent: "urgency_level sa \<ge> 7"
    and cand: "\<exists>c \<in> set (preferred_characters
                          (available_characters chars now (likelihood_random oc)) sa).
                 \<exists>ch. lookup_character chars c = Inr ch \<and> professional_level ch \<ge> 8"
  shows "\<exists>c ch. select_characters_at chars now sa oc = Inr [c]
           \<and> lookup_character chars c = Inr ch \<and> professional_level ch \<ge> 8"
proof -
  let ?available = "available_characters chars now (likelihood_random oc)"
  let ?preferred = "preferred_characters ?available sa"
  from cand preferred_subset_available have ne: "?available \<noteq> []"
    by fastforce
  have "set ?preferred \<subseteq> fst ` set chars"
    using preferred_subset_available available_subset_keys by blast
  from professional_chars_result[OF this] obtain ps where
    ps: "professional_chars chars ?preferred = Inr ps"
    and sp: "set ps = {c \<in> set ?preferred.
               \<exists>ch. lookup_character chars c = Inr ch \<and> professional_level ch \<ge> 8}"
    by blast
  from cand sp have pne: "ps \<noteq> []" by auto
  from random_choice_member[OF pne] obtain c where
    c: "random_choice (primary_choice oc) ps = Inr c" and cin: "c \<in> set ps"
    by blast
  from cin sp obtain ch where "lookup_character chars c = Inr ch" "professional_level ch \<ge> 8"
    by auto
  moreover have "select_characters_at chars now sa oc = Inr [c]"
    using urgent ne ps pne c by (simp add: select_characters_at_def Let_def)
  ultimately show ?thesis by blast
qed

text \<open>The reference cast with urgency 7 and only \<^verbatim>\<open>dublin_control\<close> available.\<close>

theorem urgent_selection_professional_witness:
  "urgency_level urgent_analysis \<ge> 7
   \<and> (\<exists>c ch. select_characters_at initial_characters 0 urgent_analysis dublin_only = Inr [c]
         \<and> lookup_character initial_characters c = Inr ch \<and> professional_level ch \<ge> 8)"
proof -
  have u: "urgency_level urgent_analysis \<ge> 7" by (simp add: urgent_analysis_def)
  have av: "available_characters initial_characters 0 (likelihood_random dublin_only)
              = [''dublin_control'']"
    by (simp add: initial_characters_def dublin_only_def)
  have "\<exists>ch. lookup_character initial_characters ''dublin_control'' = Inr ch
              \<and> professional_level ch \<ge> 8"
    by (simp add: lookup_character_def initial_characters_def)
  then have c: "\<exists>c \<in> set (preferred_characters
                          (available_characters initial_characters 0 (likelihood_random dublin_only))
                          urgent_analysis).
                 \<exists>ch. lookup_character initial_characters c = Inr ch \<and> professional_level ch \<ge> 8"
    unfolding av by (simp add: preferred_characters_def urgent_analysis_def)
  from urgent_selection_professional[OF u c] u show ?thesis by simp
qed

section \<open>Context update and gate\<close>

text \<open>
  Claim C3. For every snapshot, the complexity that the context update stores is
  \<open>min 10 (1 + min (traffic_density div 2) 3 + (4 if the emergency flag is set)
  + (2 if weather_severity > 5))\<close>, where \<open>traffic_density\<close> is the snapshot's
  \<^verbatim>\<open>traffic_count\<close> (0 when the key is absent).
\<close>

theorem complexity_formula:
  "complexity_level (guidance_context (update_guidance_context s fd)) =
     min 10 (1 + min (get (traffic_count fd) 0 div 2) 3
               + (if get (emergency fd) False then 4 else 0)
               + (if get (weather_severity fd) 0 > 5 then 2 else 0))
   \<and> traffic_density (guidance_context (update_guidance_context s fd)) = get (traffic_count fd) 0"
  by (simp add: update_guidance_context_def Let_def)

lemma base_le_effective:
  assumes "0 \<le> guidance_cooldown_seconds s"
  shows "guidance_cooldown_seconds s \<le> effective_cooldown s"
proof -
  have "(1::rat) \<le> of_int (max 1 (11 - complexity_level (guidance_context s)))"
    by simp
  from mult_left_mono[OF this assms] show ?thesis
    by (simp add: effective_cooldown_def)
qed

lemma gate_value:
  "fst (should_provide_guidance s d r) =
     (\<not> total_seconds (clock s + int d - last_guidance_time s) < guidance_cooldown_seconds s
      \<and> \<not> total_seconds (clock s + int d - last_guidance_time s) < effective_cooldown s
      \<and> (emergency_situation (guidance_context s) \<or> r < final_probability s))"
proof -
  have branches: "\<And>(e::rat) b f em p (s'::FlightGuidanceCharacterSystem).
      fst (if e < b then (False, s')
           else if e < f then (False, s')
           else if em then (True, s') else (p, s'))
        = (\<not> e < b \<and> \<not> e < f \<and> (em \<or> p))"
    by simp
  show ?thesis
    unfolding should_provide_guidance_def datetime_now_def Let_def split_conv
      effective_cooldown_def final_probability_def
    by (subst branches) simp
qed

lemma gate_state:
  "snd (should_provide_guidance s d r) = s\<lparr>clock := clock s + int d\<rparr>"
  by (simp add: should_provide_guidance_def datetime_now_def Let_def)

text \<open>
  Claim C2, as amended. With a cooldown setting that is not negative: when
  \<^verbatim>\<open>emergency_situation\<close> is false, the gate suppresses processing exactly when the time
  since the last emission is below \<open>effective_cooldown\<close> or the gate's random draw is not
  below \<open>min (0.3 + 0.05 * complexity) 0.8\<close>; when \<^verbatim>\<open>emergency_situation\<close> is true and
  the time since the last emission has reached \<open>effective_cooldown\<close>, the gate does not
  suppress, whatever the draw and the complexity.
\<close>

theorem gate_amended:
  assumes "0 \<le> guidance_cooldown_seconds s"
  shows "(\<not> emergency_situation (guidance_context s) \<longrightarrow>
            (\<not> fst (should_provide_guidance s d r)) =
              (total_seconds (clock s + int d - last_guidance_time s) < effective_cooldown s
               \<or> \<not> r < final_probability s))
         \<and> (emergency_situation (guidance_context s)
              \<and> effective_cooldown s \<le> total_seconds (clock s + int d - last_guidance_time s)
            \<longrightarrow> fst (should_provide_guidance s d r))"
  using base_le_effective[OF assms] unfolding gate_value
  by auto

text \<open>
  The gate 60 and 20 seconds after the last emission (effective cooldown 30 seconds),
  with draws 0.1 and 0.9, without and with an emergency.
\<close>

theorem gate_amended_witness:
  "fst (should_provide_guidance (initial_system 0) 60000000 (1 / 10))
   \<and> \<not> fst (should_provide_guidance (initial_system 0) 60000000 (9 / 10))
   \<and> \<not> fst (should_provide_guidance (initial_system 0) 20000000 (1 / 10))
   \<and> fst (should_provide_guidance
        ((initial_system 0)\<lparr>guidance_context := initial_context\<lparr>emergency_situation := True\<rparr>\<rparr>)
        60000000 (9 / 10))"
  using gate_amended[of "initial_system 0" 60000000 "1 / 10"]
    gate_amended[of "initial_system 0" 60000000 "9 / 10"]
    gate_amended[of "initial_system 0" 20000000 "1 / 10"]
    gate_amended[of "(initial_system 0)\<lparr>guidance_context := initial_context\<lparr>emergency_situation := True\<rparr>\<rparr>" 60000000 "9 / 10"]
  by (simp add: initial_system_def initial_context_def effective_cooldown_def
      final_probability_def total_seconds_def)

text \<open>
  As stated, C2 fails: 60 seconds after the last emission, with complexity 1 and no
  emergency, a draw of 0.9 suppresses processing although the elapsed time is not
  below the effective cooldown of 30 seconds.
\<close>

theorem gate_counterexample:
  "\<not> ((\<not> fst (should_provide_guidance (initial_system 0) 60000000 (9 / 10))) =
        (total_seconds (clock (initial_system 0) + int 60000000
                          - last_guidance_time (initial_system 0))
           < effective_cooldown (initial_system 0)
         \<and> \<not> emergency_situation (guidance_context (initial_system 0))))"
  by (simp add: gate_value initial_system_def initial_context_def effective_cooldown_def
      final_probability_def total_seconds_def)

section \<open>One emission, the loop, and one cycle\<close>

lemma output_guidance_fields:
  "characters (output_guidance s c g eo) = characters s"
  "guidance_context (output_guidance s c g eo) = guidance_context s"
  "guidance_cooldown_seconds (output_guidance s c g eo) = guidance_cooldown_seconds s"
  "max_active_characters (output_guidance s c g eo) = max_active_characters s"
  "character_rotation_minutes (output_guidance s c g eo) = character_rotation_minutes s"
  "dispatched (output_guidance s c g eo) = dispatched s @ [(clock s + int (dispatch_delay eo), c, g)]"
  "clock (output_guidance s c g eo) = clock s + int (dispatch_delay eo) + int (output_delay eo)"
  "last_guidance_time (output_guidance s c g eo) = clock s + int (dispatch_delay eo) + int (output_delay eo)"
  by (simp_all add: output_guidance_def datetime_now_def Let_def)

lemma emit_unfold:
  "emit several sa eo c g s =
     (let s1 = output_guidance s c g eo;
          t = clock s1 + int (spoke_delay eo);
          t' = t + int (history_delay eo)
      in s1\<lparr>clock := (if several then t' + 2000000 + int (sleep_extra eo) else t'),
             characters := mark_spoke c t (characters s1),
             guidance_context := (guidance_context s1)
               \<lparr>conversation_flow := conversation_flow (guidance_context s1) @
                  [\<lparr>timestamp = t', character = c, message = g, situation = situation_type sa\<rparr>]\<rparr>\<rparr>)"
  by (cases several) (simp_all add: emit_def datetime_now_def Let_def)

lemma emit_fields:
  "characters (emit several sa eo c g s) =
     mark_spoke c (clock s + int (dispatch_delay eo) + int (output_delay eo) + int (spoke_delay eo))
       (characters s)"
  "dispatched (emit several sa eo c g s) = dispatched s @ [(clock s + int (dispatch_delay eo), c, g)]"
  "guidance_cooldown_seconds (emit several sa eo c g s) = guidance_cooldown_seconds s"
  "last_guidance_time (emit several sa eo c g s) = clock s + int (dispatch_delay eo) + int (output_delay eo)"
  "clock (emit several sa eo c g s) =
     clock s + int (dispatch_delay eo) + int (output_delay eo) + int (spoke_delay eo)
       + int (history_delay eo) + (if several then 2000000 + int (sleep_extra eo) else 0)"
  "guidance_context (emit several sa eo c g s) =
     (guidance_context s)\<lparr>conversation_flow := conversation_flow (guidance_context s) @
        [\<lparr>timestamp = clock s + int (dispatch_delay eo) + int (output_delay eo)
                        + int (spoke_delay eo) + int (history_delay eo),
          character = c, message = g, situation = situation_type sa\<rparr>]\<rparr>"
  by (simp_all add: emit_unfold Let_def output_guidance_fields)

lemma mark_spoke_keys: "map fst (mark_spoke c t chars) = map fst chars"
  by (induction chars) (auto simp: mark_spoke_def)

lemma guidance_loop_step:
  assumes "c \<in> fst ` set (characters s)"
  shows "\<exists>g. g \<noteq> [] \<and> generate_character_guidance s c sa fd (eos i) = Inr g
           \<and> guidance_loop several sa fd eos i (c # rest) s =
               guidance_loop several sa fd eos (Suc i) rest (emit several sa (eos i) c g s)"
  using character_guidance_nonempty[OF assms, of sa fd "eos i"] by auto

lemma emit_keys: "fst ` set (characters (emit several sa eo c g s)) = fst ` set (characters s)"
proof -
  have "set (map fst (characters (emit several sa eo c g s))) = set (map fst (characters s))"
    by (simp only: emit_fields mark_spoke_keys)
  then show ?thesis by simp
qed

lemma guidance_loop_result:
  assumes "set cs \<subseteq> fst ` set (characters s)"
  shows "\<exists>s'. guidance_loop several sa fd eos i cs s = (None, s')
           \<and> speakers s' = speakers s @ cs
           \<and> (\<exists>new. conversation_flow (guidance_context s')
                        = conversation_flow (guidance_context s) @ new
                      \<and> map character new = cs)
           \<and> fst ` set (characters s') = fst ` set (characters s)"
  using assms
proof (induction cs arbitrary: s i)
  case Nil
  then show ?case by simp
next
  case (Cons c cs)
  from Cons.prems have cin: "c \<in> fst ` set (characters s)" by simp
  from guidance_loop_step[OF cin, of sa fd eos i several cs] obtain g where
    step: "guidance_loop several sa fd eos i (c # cs) s =
             guidance_loop several sa fd eos (Suc i) cs (emit several sa (eos i) c g s)"
    by blast
  let ?s1 = "emit several sa (eos i) c g s"
  from Cons.prems have "set cs \<subseteq> fst ` set (characters ?s1)"
    by (simp add: emit_keys)
  from Cons.IH[OF this, of "Suc i"] obtain s' new where
    r: "guidance_loop several sa fd eos (Suc i) cs ?s1 = (None, s')"
    and d: "speakers s' = speakers ?s1 @ cs"
    and h: "conversation_flow (guidance_context s')
              = conversation_flow (guidance_context ?s1) @ new" "map character new = cs"
    and k: "fst ` set (characters s') = fst ` set (characters ?s1)"
    by blast
  define e where "e = \<lparr>timestamp = clock s + int (dispatch_delay (eos i))
                        + int (output_delay (eos i)) + int (spoke_delay (eos i))
                        + int (history_delay (eos i)),
                      character = c, message = g, situation = situation_type sa\<rparr>"
  have flow: "conversation_flow (guidance_context s')
          = conversation_flow (guidance_context s) @ (e # new)"
    using h(1) by (simp add: emit_fields(6) e_def)
  have names: "map character (e # new) = c # cs"
    using h(2) by (simp add: e_def)
  have disp: "speakers s' = speakers s @ c # cs"
    using d by (simp add: speakers_def emit_fields(2))
  have keys: "fst ` set (characters s') = fst ` set (characters s)"
    using k by (simp only: emit_keys)
  have res: "guidance_loop several sa fd eos i (c # cs) s = (None, s')"
    using step r by (simp only:)
  show ?case
  proof (intro exI[of _ s'] conjI)
    show "\<exists>new. conversation_flow (guidance_context s')
                   = conversation_flow (guidance_context s) @ new
                 \<and> map character new = c # cs"
      using flow names by (intro exI[of _ "e # new"] conjI)
  qed (fact res disp keys)+
qed

lemma update_guidance_context_fields:
  "characters (update_guidance_context s fd) = characters s"
  "clock (update_guidance_context s fd) = clock s"
  "dispatched (update_guidance_context s fd) = dispatched s"
  "last_guidance_time (update_guidance_context s fd) = last_guidance_time s"
  "guidance_cooldown_seconds (update_guidance_context s fd) = guidance_cooldown_seconds s"
  "conversation_flow (guidance_context (update_guidance_context s fd))
     = conversation_flow (guidance_context s)"
  "emergency_situation (guidance_context (update_guidance_context s fd)) = get (emergency fd) False"
  by (simp_all add: update_guidance_context_def Let_def)

lemma analyze_situation_clock:
  "analyze_situation (s\<lparr>clock := t\<rparr>) fd = analyze_situation s fd"
  by (simp add: analyze_situation_def)

lemma cycle_start_fields:
  "characters (cycle_start s fd oc) = characters s"
  "clock (cycle_start s fd oc) = clock s + int (gate_delay oc) + int (select_delay oc)"
  "dispatched (cycle_start s fd oc) = dispatched s"
  "last_guidance_time (cycle_start s fd oc) = last_guidance_time s"
  "guidance_cooldown_seconds (cycle_start s fd oc) = guidance_cooldown_seconds s"
  "conversation_flow (guidance_context (cycle_start s fd oc))
     = conversation_flow (guidance_context s)"
  by (simp_all add: cycle_start_def update_guidance_context_fields)

lemma process_closed:
  assumes "\<not> fst (should_provide_guidance (update_guidance_context s fd)
                    (gate_delay oc) (gate_random oc))"
  shows "process_flight_situation s fd oc =
           (None, (update_guidance_context s fd)\<lparr>clock := clock s + int (gate_delay oc)\<rparr>)"
  using assms
  by (simp add: process_flight_situation_def Let_def split_beta gate_state
      update_guidance_context_fields)

lemma process_open:
  assumes "fst (should_provide_guidance (update_guidance_context s fd)
                  (gate_delay oc) (gate_random oc))"
  shows "process_flight_situation s fd oc =
           (case cycle_selection s fd oc of
              Inl e \<Rightarrow> (Some e, cycle_start s fd oc)
            | Inr sel \<Rightarrow>
                guidance_loop (length sel > 1)
                  (analyze_situation (update_guidance_context s fd) fd) fd (emission oc) 0 sel
                  (cycle_start s fd oc))"
  using assms unfolding cycle_start_def cycle_selection_def
  by (simp add: process_flight_situation_def Let_def split_beta gate_state
      select_responding_characters_def datetime_now_def analyze_situation_clock
      update_guidance_context_fields)

lemma filter_member_nonempty: "x \<in> set xs \<Longrightarrow> P x \<Longrightarrow> filter P xs \<noteq> []"
  by (induction xs) auto

lemma professional_chars_subset:
  "professional_chars chars cs = Inr ps \<Longrightarrow> set ps \<subseteq> set cs"
  by (induction cs arbitrary: ps) (auto split: sum.splits if_splits)

lemma random_choice_in: "random_choice k xs = Inr x \<Longrightarrow> x \<in> set xs"
  by (auto simp: random_choice_def split: if_splits)

lemma normal_selection_shape:
  assumes "normal_selection preferred sa oc = Inr sel"
  shows "length sel \<le> 2 \<and> distinct sel \<and> set sel \<subseteq> set preferred"
proof -
  from assms obtain first where f: "random_choice (primary_choice oc) preferred = Inr first"
    by (auto simp: normal_selection_def split: sum.splits)
  note fin = random_choice_in[OF f]
  show ?thesis
  proof (cases "situation_type sa = ''routine'' \<and> length preferred > 1
                 \<and> second_random oc < 2 / 10")
    case True
    with assms f obtain second_char where
      s2: "random_choice (second_choice oc) (filter (\<lambda>c. c \<noteq> first) preferred) = Inr second_char"
      and sel: "sel = [first, second_char]"
      by (auto simp: normal_selection_def split: sum.splits)
    from random_choice_in[OF s2] have "second_char \<in> set preferred" "second_char \<noteq> first"
      by auto
    with fin sel show ?thesis by simp
  next
    case False
    with assms f have "sel = [first]"
      by (auto simp: normal_selection_def)
    with fin show ?thesis by simp
  qed
qed

lemma selection_shape:
  assumes "select_characters_at chars now sa oc = Inr sel"
  shows "length sel \<le> 2 \<and> distinct sel
         \<and> set sel \<subseteq> set (available_characters chars now (likelihood_random oc))"
proof -
  let ?available = "available_characters chars now (likelihood_random oc)"
  let ?preferred = "preferred_characters ?available sa"
  have sub: "set ?preferred \<subseteq> set ?available"
    by (rule preferred_subset_available)
  have "set ?preferred \<subseteq> fst ` set chars"
    using sub available_subset_keys by blast
  from professional_chars_result[OF this] obtain ps where
    ps: "professional_chars chars ?preferred = Inr ps" by blast
  consider (none) "?available = []"
    | (urgent) "?available \<noteq> []" "urgency_level sa \<ge> 7" "ps \<noteq> []"
    | (normal) "?available \<noteq> []" "\<not> (urgency_level sa \<ge> 7 \<and> ps \<noteq> [])"
    by blast
  then show ?thesis
  proof cases
    case none
    with assms show ?thesis by (simp add: select_characters_at_def)
  next
    case urgent
    with assms ps obtain c where
      c: "random_choice (primary_choice oc) ps = Inr c" and sel: "sel = [c]"
      by (auto simp: select_characters_at_def Let_def split: sum.splits)
    from random_choice_in[OF c] professional_chars_subset[OF ps] sub
    have "c \<in> set ?available" by blast
    with sel show ?thesis by simp
  next
    case normal
    with assms ps have "normal_selection ?preferred sa oc = Inr sel"
      by (auto simp: select_characters_at_def Let_def split: if_splits)
    from normal_selection_shape[OF this] sub show ?thesis by auto
  qed
qed

lemma selection_keys:
  "select_characters_at chars now sa oc = Inr sel \<Longrightarrow> set sel \<subseteq> fst ` set chars"
  using selection_shape available_subset_keys by blast

lemma cycle_effect:
  "speakers ((snd (process_flight_situation s fd oc)))
     = speakers s @ cycle_speakers s fd oc
   \<and> (\<exists>new. conversation_flow (guidance_context (snd (process_flight_situation s fd oc)))
               = conversation_flow (guidance_context s) @ new
             \<and> map character new = cycle_speakers s fd oc)
   \<and> fst ` set (characters (snd (process_flight_situation s fd oc))) = fst ` set (characters s)"
proof (cases "gate_open s fd oc")
  case False
  then have p: "process_flight_situation s fd oc =
           (None, (update_guidance_context s fd)\<lparr>clock := clock s + int (gate_delay oc)\<rparr>)"
    using process_closed by (simp add: gate_open_def)
  from False have sp: "cycle_speakers s fd oc = []" by (simp add: cycle_speakers_def)
  show ?thesis unfolding p sp by (simp add: speakers_def update_guidance_context_fields)
next
  case True
  then have p: "process_flight_situation s fd oc =
           (case cycle_selection s fd oc of
              Inl e \<Rightarrow> (Some e, cycle_start s fd oc)
            | Inr sel \<Rightarrow>
                guidance_loop (length sel > 1)
                  (analyze_situation (update_guidance_context s fd) fd) fd (emission oc) 0 sel
                  (cycle_start s fd oc))"
    using process_open by (simp add: gate_open_def)
  show ?thesis
  proof (cases "cycle_selection s fd oc")
    case (Inl e)
    with True have sp: "cycle_speakers s fd oc = []" by (simp add: cycle_speakers_def)
    from Inl p have p': "process_flight_situation s fd oc = (Some e, cycle_start s fd oc)"
      by simp
    show ?thesis unfolding p' sp by (simp add: speakers_def cycle_start_fields)
  next
    case (Inr sel)
    with True have sp: "cycle_speakers s fd oc = sel" by (simp add: cycle_speakers_def)
    from Inr have "set sel \<subseteq> fst ` set (characters (cycle_start s fd oc))"
      using selection_keys by (simp add: cycle_selection_def cycle_start_fields)
    from guidance_loop_result[OF this, of "length sel > 1"
        "analyze_situation (update_guidance_context s fd) fd" fd "emission oc" 0]
    obtain s' new where
      r: "guidance_loop (length sel > 1) (analyze_situation (update_guidance_context s fd) fd)
            fd (emission oc) 0 sel (cycle_start s fd oc) = (None, s')"
      and d: "speakers s'
                = speakers ((cycle_start s fd oc)) @ sel"
      and h: "conversation_flow (guidance_context s')
                = conversation_flow (guidance_context (cycle_start s fd oc)) @ new"
             "map character new = sel"
      and k: "fst ` set (characters s') = fst ` set (characters (cycle_start s fd oc))"
      by (elim exE conjE)
    from Inr p r have p': "process_flight_situation s fd oc = (None, s')" by simp
    show ?thesis unfolding p' sp
    proof (intro conjI)
      show "\<exists>new. conversation_flow (guidance_context (snd (None, s')))
                     = conversation_flow (guidance_context s) @ new
                   \<and> map character new = sel"
        using h by (intro exI[of _ new]) (simp add: cycle_start_fields)
    qed (use d k in \<open>simp_all add: speakers_def cycle_start_fields\<close>)
  qed
qed

section \<open>Repeated cycles in which one character answers\<close>

lemma rest_check: "(total_seconds (now - t) / 60 < 5) = (now - t < 300000000)"
proof -
  have "(total_seconds (now - t) / 60 < 5) = ((of_int (now - t) :: rat) < of_int 300000000)"
    by (simp add: total_seconds_def field_simps)
  also have "\<dots> = (now - t < 300000000)"
    by (simp only: of_int_less_iff)
  finally show ?thesis .
qed

lemma dublin_ready_initial: "dublin_ready (initial_system t0)"
  by (simp add: dublin_ready_def initial_system_def initial_characters_def)

lemma quiet_update:
  "complexity_level (guidance_context (update_guidance_context s quiet_snapshot)) = 1"
  "traffic_density (guidance_context (update_guidance_context s quiet_snapshot)) = 0"
  "emergency_situation (guidance_context (update_guidance_context s quiet_snapshot)) = False"
  by (simp_all add: update_guidance_context_def Let_def quiet_snapshot_def get_def)

lemma quiet_analysis:
  "analyze_situation (update_guidance_context s quiet_snapshot) quiet_snapshot =
     \<lparr>situation_type = ''routine'', urgency_level = 1,
      requires_technical_guidance = False, traffic_concerns = [],
      weather_concerns = [], educational_opportunities = [],
      character_preferences = []\<rparr>"
  by (simp add: analyze_situation_def Let_def quiet_update) (simp add: quiet_snapshot_def get_def)

lemma dublin_gate:
  assumes "dublin_ready s"
  shows "gate_open s quiet_snapshot dublin_only"
proof -
  let ?u = "update_guidance_context s quiet_snapshot"
  from assms have c: "guidance_cooldown_seconds ?u = 3" and l: "last_guidance_time ?u \<le> clock ?u"
    by (simp_all add: dublin_ready_def update_guidance_context_fields)
  have e: "effective_cooldown ?u = 30" "final_probability ?u = 7 / 20"
    by (simp_all add: effective_cooldown_def final_probability_def c quiet_update)
  from l have "(400::rat) \<le> total_seconds (clock ?u + int 400000000 - last_guidance_time ?u)"
    by (simp add: total_seconds_def field_simps)
  then show ?thesis
    by (simp add: gate_open_def gate_value c e dublin_only_def)
qed

lemma dublin_selection:
  assumes "dublin_ready s"
  shows "cycle_selection s quiet_snapshot dublin_only = Inr [''dublin_control'']"
proof -
  from assms obtain d a c sp where
    chars: "characters s = [(''dublin_control'', d), (''approach_control'', a),
                            (''captain_murphy'', c), (''sarah_spotter'', sp)]"
    and rl: "response_likelihood d = 8 / 10" "response_likelihood a = 6 / 10"
            "response_likelihood c = 4 / 10" "response_likelihood sp = 3 / 10"
    and ls: "case last_spoke d of None \<Rightarrow> True | Some t \<Rightarrow> t \<le> clock s"
    unfolding dublin_ready_def by (elim exE conjE)
  have rested: "\<not> (case last_spoke d of None \<Rightarrow> False
                   | Some t \<Rightarrow> total_seconds (clock s + 400000000 - t) / 60 < 5)"
  proof (cases "last_spoke d")
    case None
    then show ?thesis by simp
  next
    case (Some t)
    with ls have "t \<le> clock s" by simp
    then have "\<not> clock s + 400000000 - t < 300000000" by simp
    then show ?thesis by (simp only: Some option.case rest_check simp_thms)
  qed
  have av: "available_characters (characters s) (clock s + 400000000)
              (\<lambda>c. if c = ''dublin_control'' then 0 else 95 / 100) = [''dublin_control'']"
    unfolding chars using rested by (simp add: rl)
  show ?thesis
    by (simp add: cycle_selection_def select_characters_at_def Let_def quiet_analysis
        dublin_only_def av preferred_characters_def normal_selection_def random_choice_def)
qed

lemma dublin_cycle:
  assumes "dublin_ready s"
  shows "dublin_ready (snd (process_flight_situation s quiet_snapshot dublin_only))
         \<and> cycle_speakers s quiet_snapshot dublin_only = [''dublin_control'']"
proof -
  let ?sa = "analyze_situation (update_guidance_context s quiet_snapshot) quiet_snapshot"
  let ?st = "cycle_start s quiet_snapshot dublin_only"
  let ?eo = "emission dublin_only 0"
  note g = dublin_gate[OF assms]
  note sel = dublin_selection[OF assms]
  from g sel have sp: "cycle_speakers s quiet_snapshot dublin_only = [''dublin_control'']"
    by (simp add: cycle_speakers_def)
  from assms obtain d a c sp where
    chars: "characters s = [(''dublin_control'', d), (''approach_control'', a),
                            (''captain_murphy'', c), (''sarah_spotter'', sp)]"
    and rl: "response_likelihood d = 8 / 10" "response_likelihood a = 6 / 10"
            "response_likelihood c = 4 / 10" "response_likelihood sp = 3 / 10"
    and cd: "guidance_cooldown_seconds s = 3"
    unfolding dublin_ready_def by (elim exE conjE)
  have "''dublin_control'' \<in> fst ` set (characters ?st)"
    by (simp add: cycle_start_fields chars)
  from guidance_loop_step[OF this, of ?sa quiet_snapshot "emission dublin_only" 0 False "[]"]
  obtain gd where
    loop: "guidance_loop False ?sa quiet_snapshot (emission dublin_only) 0 [''dublin_control''] ?st
             = (None, emit False ?sa ?eo ''dublin_control'' gd ?st)"
    by auto
  have p: "process_flight_situation s quiet_snapshot dublin_only
             = (None, emit False ?sa ?eo ''dublin_control'' gd ?st)"
    using process_open[of s quiet_snapshot dublin_only] g sel loop
    by (simp add: gate_open_def)
  have "dublin_ready (emit False ?sa ?eo ''dublin_control'' gd ?st)"
    unfolding dublin_ready_def
    by (simp add: emit_fields cycle_start_fields chars rl cd mark_spoke_def)
  with p sp show ?thesis by simp
qed

lemma dublin_cycles:
  assumes "dublin_ready s"
  shows "dublin_ready (process_flight_situations s (replicate n (quiet_snapshot, dublin_only)))
    \<and> length (conversation_flow (guidance_context
          (process_flight_situations s (replicate n (quiet_snapshot, dublin_only)))))
        = length (conversation_flow (guidance_context s)) + n
    \<and> speakers (process_flight_situations s (replicate n (quiet_snapshot, dublin_only)))
        = speakers s @ replicate n ''dublin_control''"
  using assms
proof (induction n arbitrary: s)
  case 0
  then show ?case by simp
next
  case (Suc n)
  let ?s1 = "snd (process_flight_situation s quiet_snapshot dublin_only)"
  from dublin_cycle[OF Suc.prems] have r: "dublin_ready ?s1"
    and sp: "cycle_speakers s quiet_snapshot dublin_only = [''dublin_control'']"
    by simp_all
  from cycle_effect[of s quiet_snapshot dublin_only] sp obtain new where
    d: "speakers ?s1 = speakers s @ [''dublin_control'']"
    and h: "conversation_flow (guidance_context ?s1) = conversation_flow (guidance_context s) @ new"
           "map character new = [''dublin_control'']"
    by auto
  from h(2) have "length new = 1" by (metis length_map length_Cons list.size(3) One_nat_def)
  with h(1) have l: "length (conversation_flow (guidance_context ?s1))
                       = length (conversation_flow (guidance_context s)) + 1"
    by simp
  from Suc.IH[OF r] d l show ?case
    by (simp add: replicate_app_Cons_same)
qed

section \<open>The conversation history; the emergency and force-speak entry points\<close>

lemma cycles_prefix:
  "prefix (conversation_flow (guidance_context s))
     (conversation_flow (guidance_context (process_flight_situations s inputs)))"
proof (induction inputs arbitrary: s)
  case Nil
  then show ?case by simp
next
  case (Cons x inputs)
  obtain fd oc where x: "x = (fd, oc)" by (cases x)
  from cycle_effect[of s fd oc] have
    "prefix (conversation_flow (guidance_context s))
       (conversation_flow (guidance_context (snd (process_flight_situation s fd oc))))"
    by (auto simp: prefix_def)
  with Cons.IH[of "snd (process_flight_situation s fd oc)"] show ?case
    unfolding x by (simp add: prefix_order.order_trans)
qed

text \<open>
  Claim C7, as amended. The conversation history has no capacity and nothing is ever
  evicted: a cycle appends at the end one entry per dispatch of that cycle, in order
  and under the same character names, and leaves every earlier entry in place, so the
  history before any sequence of cycles is a prefix of the history after it.
\<close>

theorem conversation_flow_append_only:
  "(\<exists>new. conversation_flow (guidance_context (snd (process_flight_situation s fd oc)))
             = conversation_flow (guidance_context s) @ new
          \<and> map character new
             = drop (length (speakers s)) (speakers (snd (process_flight_situation s fd oc))))
   \<and> prefix (conversation_flow (guidance_context s))
        (conversation_flow (guidance_context (process_flight_situations s inputs)))"
proof (intro conjI)
  from cycle_effect[of s fd oc] obtain new where
    sp: "speakers (snd (process_flight_situation s fd oc)) = speakers s @ cycle_speakers s fd oc"
    and "conversation_flow (guidance_context (snd (process_flight_situation s fd oc)))
           = conversation_flow (guidance_context s) @ new"
    and "map character new = cycle_speakers s fd oc"
    by (elim exE conjE)
  then show "\<exists>new. conversation_flow (guidance_context (snd (process_flight_situation s fd oc)))
             = conversation_flow (guidance_context s) @ new
          \<and> map character new
             = drop (length (speakers s)) (speakers (snd (process_flight_situation s fd oc)))"
    by (intro exI[of _ new]) simp
next
  show "prefix (conversation_flow (guidance_context s))
        (conversation_flow (guidance_context (process_flight_situations s inputs)))"
    by (rule cycles_prefix)
qed

text \<open>
  As stated, C7 fails: 101 cycles, 400 seconds apart, in each of which
  \<^verbatim>\<open>dublin_control\<close> alone answers, leave a history of 101 entries.
\<close>

theorem conversation_flow_exceeds_capacity:
  "length (conversation_flow (guidance_context
      (process_flight_situations (initial_system 0)
         (replicate 101 (quiet_snapshot, dublin_only))))) = 101"
  using dublin_cycles[OF dublin_ready_initial, of 0 101]
  by (simp add: initial_system_def initial_context_def)

lemma handle_emergency_result:
  "(\<exists>n ch g. (n, ch) \<in> set (characters s) \<and> professional_level ch \<ge> 8 \<and> g \<noteq> []
       \<and> handle_emergency_situation s eo =
           (None, output_guidance
              (s\<lparr>guidance_context := (guidance_context s)
                   \<lparr>emergency_situation := True, complexity_level := 10\<rparr>\<rparr>) n g eo))
   \<or> (\<not> (\<exists>(n, ch) \<in> set (characters s). professional_level ch \<ge> 8)
       \<and> handle_emergency_situation s eo =
           (None, s\<lparr>guidance_context := (guidance_context s)
                   \<lparr>emergency_situation := True, complexity_level := 10\<rparr>\<rparr>))"
proof -
  let ?s1 = "s\<lparr>guidance_context := (guidance_context s)
                   \<lparr>emergency_situation := True, complexity_level := 10\<rparr>\<rparr>"
  let ?pro = "map fst (filter (\<lambda>(n, ch). professional_level ch \<ge> 8) (characters s))"
  show ?thesis
  proof (cases ?pro)
    case Nil
    then have "\<not> (\<exists>(n, ch) \<in> set (characters s). professional_level ch \<ge> 8)"
      by (auto simp: filter_empty_conv)
    moreover from Nil have "handle_emergency_situation s eo = (None, ?s1)"
      by (simp add: handle_emergency_situation_def Let_def)
    ultimately show ?thesis by (intro disjI2 conjI)
  next
    case (Cons n rest)
    then have "n \<in> set ?pro" by simp
    then obtain ch where in_chars: "(n, ch) \<in> set (characters s)" and pro: "professional_level ch \<ge> 8"
      by auto
    then have "n \<in> fst ` set (characters ?s1)" by force
    from emergency_guidance_nonempty[OF this, of eo] obtain g where
      g: "generate_emergency_guidance ?s1 n eo = Inr g" "g \<noteq> []" by blast
    from Cons g have "handle_emergency_situation s eo = (None, output_guidance ?s1 n g eo)"
      by (simp add: handle_emergency_situation_def Let_def)
    with in_chars pro g(2) show ?thesis by (intro disjI1 exI[of _ n] exI[of _ ch] exI[of _ g] conjI)
  qed
qed

lemma handle_emergency_characters:
  "characters (snd (handle_emergency_situation s eo)) = characters s"
  using handle_emergency_result[of s eo]
  by (elim disjE exE conjE) (simp_all add: output_guidance_fields)

lemma force_result:
  "(c \<notin> fst ` set (characters s) \<and> force_character_guidance s c ov eo = (Inr None, s))
   \<or> (c \<in> fst ` set (characters s)
       \<and> (\<exists>g. g \<noteq> [] \<and> force_character_guidance s c ov eo
                 = (Inr (Some g), output_guidance s c g eo)))"
proof (cases "c \<in> fst ` set (characters s)")
  case False
  then show ?thesis by (simp add: force_character_guidance_def)
next
  case True
  let ?ms = "\<lparr>situation_type =
                 (case ov of
                    None \<Rightarrow> ''routine''
                  | Some v \<Rightarrow> if v = [] then ''routine'' else v),
               urgency_level = 3, requires_technical_guidance = False,
               traffic_concerns = [], weather_concerns = [],
               educational_opportunities = [''general_guidance''],
               character_preferences = [c]\<rparr>"
  let ?fd = "\<lparr>callsign = Some (aircraft_callsign (guidance_context s)),
               phase = Some (flight_phase (guidance_context s)),
               traffic_count = None, weather = None, emergency = None,
               weather_severity = None, altitude = Some 25000, aircraft_type = None\<rparr>"
  from character_guidance_nonempty[OF True, of ?ms ?fd eo] obtain g where
    g: "generate_character_guidance s c ?ms ?fd eo = Inr g" "g \<noteq> []" by blast
  with True have "force_character_guidance s c ov eo = (Inr (Some g), output_guidance s c g eo)"
    by (simp add: force_character_guidance_def Let_def)
  with True g(2) show ?thesis by (intro disjI2 conjI exI[of _ g])
qed

lemma force_characters:
  "characters (snd (force_character_guidance s c ov eo)) = characters s"
  using force_result[of c s ov eo]
  by (elim disjE exE conjE) (simp_all add: output_guidance_fields)

text \<open>
  Claim C10. \<^verbatim>\<open>handle_emergency_situation\<close> and \<^verbatim>\<open>force_character_guidance\<close> leave
  \<open>characters\<close> as it was, so the \<^verbatim>\<open>last_spoke\<close> and \<^verbatim>\<open>spoke_count_session\<close> of
  the emitting character are unchanged; dispatch itself writes \<^verbatim>\<open>last_guidance_time\<close>
  and neither the characters nor the context; the selector's list of available
  characters is therefore the same after such an emission as before; and the emission
  is made: one dispatch is added when the cast has a character with
  \<open>professional_level \<ge> 8\<close>, respectively when the named character exists.
\<close>

theorem emergency_and_force_leave_characters:
  "characters (snd (handle_emergency_situation s eo)) = characters s
   \<and> characters (snd (force_character_guidance s c ov eo)) = characters s
   \<and> characters (output_guidance s c g eo) = characters s
   \<and> guidance_context (output_guidance s c g eo) = guidance_context s
   \<and> last_guidance_time (output_guidance s c g eo) = clock (output_guidance s c g eo)
   \<and> available_characters (characters (snd (handle_emergency_situation s eo))) now rnd
       = available_characters (characters s) now rnd
   \<and> available_characters (characters (snd (force_character_guidance s c ov eo))) now rnd
       = available_characters (characters s) now rnd
   \<and> ((\<exists>(n, ch) \<in> set (characters s). professional_level ch \<ge> 8) \<longrightarrow>
        (\<exists>t n m. dispatched (snd (handle_emergency_situation s eo)) = dispatched s @ [(t, n, m)]))
   \<and> (c \<in> fst ` set (characters s) \<longrightarrow>
        (\<exists>t m. dispatched (snd (force_character_guidance s c ov eo)) = dispatched s @ [(t, c, m)]))"
proof (intro conjI impI)
  assume "\<exists>(n, ch) \<in> set (characters s). professional_level ch \<ge> 8"
  with handle_emergency_result[of s eo] obtain n m where
    "handle_emergency_situation s eo =
       (None, output_guidance
          (s\<lparr>guidance_context := (guidance_context s)
               \<lparr>emergency_situation := True, complexity_level := 10\<rparr>\<rparr>) n m eo)"
    by (elim disjE exE conjE) simp_all
  then show "\<exists>t n m. dispatched (snd (handle_emergency_situation s eo)) = dispatched s @ [(t, n, m)]"
    by (simp add: output_guidance_fields)
next
  assume "c \<in> fst ` set (characters s)"
  with force_result[of c s ov eo] obtain m where
    "force_character_guidance s c ov eo = (Inr (Some m), output_guidance s c m eo)"
    by (elim disjE exE conjE) simp_all
  then show "\<exists>t m. dispatched (snd (force_character_guidance s c ov eo)) = dispatched s @ [(t, c, m)]"
    by (simp add: output_guidance_fields)
qed (simp_all only: handle_emergency_characters force_characters output_guidance_fields)

text \<open>Both entry points on the initial system.\<close>

theorem emergency_and_force_leave_characters_witness:
  "characters (snd (handle_emergency_situation (initial_system 0) plain_emission))
     = initial_characters
   \<and> (\<exists>t n m. dispatched (snd (handle_emergency_situation (initial_system 0) plain_emission))
                 = [(t, n, m)])
   \<and> characters (snd (force_character_guidance (initial_system 0) ''sarah_spotter'' None
                         plain_emission)) = initial_characters
   \<and> (\<exists>t m. dispatched (snd (force_character_guidance (initial_system 0) ''sarah_spotter'' None
                                plain_emission)) = [(t, ''sarah_spotter'', m)])"
proof -
  have h1: "\<exists>(n, ch) \<in> set (characters (initial_system 0)). professional_level ch \<ge> 8"
    by (simp add: initial_system_def initial_characters_def)
  have h2: "''sarah_spotter'' \<in> fst ` set (characters (initial_system 0))"
    by (simp add: initial_system_def initial_characters_def)
  have c: "characters (initial_system 0) = initial_characters"
    and d: "dispatched (initial_system 0) = []"
    by (simp_all add: initial_system_def)
  from emergency_and_force_leave_characters[of "initial_system 0" plain_emission
      "''sarah_spotter''" None "[]" 0 "\<lambda>c. 0"] h1 h2
  show ?thesis unfolding c d by simp
qed

section \<open>Emergency snapshots in the processing cycle\<close>

lemma cycle_speakers_bound: "length (cycle_speakers s fd oc) \<le> 2"
proof (cases "cycle_selection s fd oc")
  case (Inl e)
  then show ?thesis by (simp add: cycle_speakers_def)
next
  case (Inr sel)
  then have "length sel \<le> 2"
    using selection_shape by (simp add: cycle_selection_def)
  with Inr show ?thesis by (simp add: cycle_speakers_def)
qed

lemma emergency_gate_open:
  assumes em: "get (emergency fd) False"
    and cd: "0 \<le> guidance_cooldown_seconds s"
    and el: "effective_cooldown (update_guidance_context s fd)
               \<le> total_seconds (clock s + int (gate_delay oc) - last_guidance_time s)"
  shows "gate_open s fd oc"
proof -
  let ?u = "update_guidance_context s fd"
  let ?elapsed = "total_seconds (clock ?u + int (gate_delay oc) - last_guidance_time ?u)"
  have "0 \<le> guidance_cooldown_seconds ?u"
    using cd by (simp add: update_guidance_context_fields)
  from base_le_effective[OF this] el
  have "\<not> ?elapsed < guidance_cooldown_seconds ?u" "\<not> ?elapsed < effective_cooldown ?u"
    by (simp_all add: update_guidance_context_fields)
  with em show ?thesis
    by (simp add: gate_open_def gate_value update_guidance_context_fields(7))
qed

text \<open>
  Claim C1, as amended. For a snapshot whose emergency flag is set, when the cooldown
  setting is not negative and the time since \<^verbatim>\<open>last_guidance_time\<close> has reached the
  effective cooldown, the gate passes whatever its random draw, and the cycle
  dispatches one guidance for each name the selector returns: at most two, and none
  when the selector returns no name or raises; their professional level is not
  restricted. Exactly one emission, by a character with \<open>professional_level \<ge> 8\<close> and
  whatever \<^verbatim>\<open>last_guidance_time\<close> is, is what \<^verbatim>\<open>handle_emergency_situation\<close> produces
  when the cast has such a character.
\<close>

theorem emergency_snapshot_emissions:
  "(get (emergency fd) False \<and> 0 \<le> guidance_cooldown_seconds s
      \<and> effective_cooldown (update_guidance_context s fd)
            \<le> total_seconds (clock s + int (gate_delay oc) - last_guidance_time s)
    \<longrightarrow> fst (should_provide_guidance (update_guidance_context s fd) (gate_delay oc) (gate_random oc))
        \<and> speakers (snd (process_flight_situation s fd oc))
            = speakers s @ (case cycle_selection s fd oc of Inl e \<Rightarrow> [] | Inr sel \<Rightarrow> sel)
        \<and> length (case cycle_selection s fd oc of Inl e \<Rightarrow> [] | Inr sel \<Rightarrow> sel) \<le> 2)
   \<and> ((\<exists>(n, ch) \<in> set (characters s). professional_level ch \<ge> 8)
    \<longrightarrow> (\<exists>t n ch m. dispatched (snd (handle_emergency_situation s eo)) = dispatched s @ [(t, n, m)]
                    \<and> (n, ch) \<in> set (characters s) \<and> professional_level ch \<ge> 8))"
proof (intro conjI impI)
  assume a: "get (emergency fd) False \<and> 0 \<le> guidance_cooldown_seconds s
      \<and> effective_cooldown (update_guidance_context s fd)
            \<le> total_seconds (clock s + int (gate_delay oc) - last_guidance_time s)"
  then have g: "gate_open s fd oc" using emergency_gate_open by blast
  then show "fst (should_provide_guidance (update_guidance_context s fd) (gate_delay oc) (gate_random oc))"
    by (simp add: gate_open_def)
  from g have sp: "cycle_speakers s fd oc
                     = (case cycle_selection s fd oc of Inl e \<Rightarrow> [] | Inr sel \<Rightarrow> sel)"
    by (simp add: cycle_speakers_def)
  from cycle_effect[of s fd oc] show "speakers (snd (process_flight_situation s fd oc))
            = speakers s @ (case cycle_selection s fd oc of Inl e \<Rightarrow> [] | Inr sel \<Rightarrow> sel)"
    unfolding sp by (elim conjE)
  from cycle_speakers_bound[of s fd oc]
  show "length (case cycle_selection s fd oc of Inl e \<Rightarrow> [] | Inr sel \<Rightarrow> sel) \<le> 2"
    unfolding sp .
next
  assume "\<exists>(n, ch) \<in> set (characters s). professional_level ch \<ge> 8"
  with handle_emergency_result[of s eo] obtain n ch m where
    "(n, ch) \<in> set (characters s)" "professional_level ch \<ge> 8"
    "handle_emergency_situation s eo =
       (None, output_guidance
          (s\<lparr>guidance_context := (guidance_context s)
               \<lparr>emergency_situation := True, complexity_level := 10\<rparr>\<rparr>) n m eo)"
    by (elim disjE exE conjE) simp_all
  then show "\<exists>t n ch m. dispatched (snd (handle_emergency_situation s eo)) = dispatched s @ [(t, n, m)]
                    \<and> (n, ch) \<in> set (characters s) \<and> professional_level ch \<ge> 8"
    by (intro exI[of _ "clock s + int (dispatch_delay eo)"] exI[of _ n] exI[of _ ch] exI[of _ m])
       (simp add: output_guidance_fields)
qed

lemma emergency_update:
  "complexity_level (guidance_context (update_guidance_context s emergency_snapshot)) = 5"
  "traffic_density (guidance_context (update_guidance_context s emergency_snapshot)) = 0"
  "emergency_situation (guidance_context (update_guidance_context s emergency_snapshot)) = True"
  by (simp_all add: update_guidance_context_def Let_def emergency_snapshot_def get_def)

lemma emergency_analysis:
  "analyze_situation (update_guidance_context s emergency_snapshot) emergency_snapshot =
     \<lparr>situation_type = ''routine'', urgency_level = 1,
      requires_technical_guidance = False, traffic_concerns = [],
      weather_concerns = [], educational_opportunities = [],
      character_preferences = []\<rparr>"
  by (simp add: analyze_situation_def Let_def emergency_update)
     (simp add: emergency_snapshot_def get_def)

lemma sarah_available:
  "available_characters initial_characters now
     (\<lambda>c. if c = ''sarah_spotter'' then 1 / 10 else 95 / 100) = [''sarah_spotter'']"
  by (simp add: initial_characters_def)

lemma sarah_selection:
  "cycle_selection (initial_system 0) emergency_snapshot only_sarah = Inr [''sarah_spotter'']"
  by (simp add: cycle_selection_def select_characters_at_def Let_def emergency_analysis)
     (simp add: initial_system_def only_sarah_def sarah_available preferred_characters_def
        normal_selection_def random_choice_def)

lemma sarah_gate: "gate_open (initial_system 0) emergency_snapshot only_sarah"
proof -
  let ?u = "update_guidance_context (initial_system 0) emergency_snapshot"
  have e: "effective_cooldown ?u = 18"
    by (simp add: effective_cooldown_def emergency_update update_guidance_context_fields
        initial_system_def)
  show ?thesis
    by (simp add: gate_open_def gate_value e emergency_update update_guidance_context_fields)
       (simp add: initial_system_def only_sarah_def total_seconds_def emergency_snapshot_def
          get_def)
qed

text \<open>
  As stated, C1 fails: for an emergency snapshot on the initial system, 60 seconds
  after start, with draws that leave only \<^verbatim>\<open>sarah_spotter\<close> available, the one
  emission of the cycle comes from \<^verbatim>\<open>sarah_spotter\<close>, whose professional level is 6.
\<close>

theorem emergency_snapshot_counterexample:
  "get (emergency emergency_snapshot) False
   \<and> speakers (snd (process_flight_situation (initial_system 0) emergency_snapshot only_sarah))
       = [''sarah_spotter'']
   \<and> map (professional_level \<circ> snd)
         (filter (\<lambda>(n, ch). n = ''sarah_spotter'') (characters (initial_system 0))) = [6]"
proof (intro conjI)
  show "get (emergency emergency_snapshot) False"
    by (simp add: emergency_snapshot_def get_def)
  from sarah_gate sarah_selection
  have "cycle_speakers (initial_system 0) emergency_snapshot only_sarah = [''sarah_spotter'']"
    by (simp add: cycle_speakers_def)
  with cycle_effect[of "initial_system 0" emergency_snapshot only_sarah]
  show "speakers (snd (process_flight_situation (initial_system 0) emergency_snapshot only_sarah))
       = [''sarah_spotter'']"
    by (simp add: speakers_def initial_system_def)
  show "map (professional_level \<circ> snd)
         (filter (\<lambda>(n, ch). n = ''sarah_spotter'') (characters (initial_system 0))) = [6]"
    by (simp add: initial_system_def initial_characters_def)
qed

text \<open>The same snapshot and draws, and the emergency entry point on the initial system.\<close>

theorem emergency_snapshot_emissions_witness:
  "fst (should_provide_guidance (update_guidance_context (initial_system 0) emergency_snapshot)
          (gate_delay only_sarah) (gate_random only_sarah))
   \<and> speakers (snd (process_flight_situation (initial_system 0) emergency_snapshot only_sarah))
       = speakers (initial_system 0) @ [''sarah_spotter'']
   \<and> (\<exists>t n ch m. dispatched (snd (handle_emergency_situation (initial_system 0) plain_emission))
                    = dispatched (initial_system 0) @ [(t, n, m)]
                  \<and> (n, ch) \<in> set (characters (initial_system 0)) \<and> professional_level ch \<ge> 8)"
proof -
  let ?u = "update_guidance_context (initial_system 0) emergency_snapshot"
  have e: "effective_cooldown ?u = 18"
    by (simp add: effective_cooldown_def emergency_update update_guidance_context_fields
        initial_system_def)
  have h1: "get (emergency emergency_snapshot) False \<and> 0 \<le> guidance_cooldown_seconds (initial_system 0)
      \<and> effective_cooldown ?u
            \<le> total_seconds (clock (initial_system 0) + int (gate_delay only_sarah)
                               - last_guidance_time (initial_system 0))"
    unfolding e by (simp add: emergency_snapshot_def get_def initial_system_def only_sarah_def
        total_seconds_def)
  have h2: "\<exists>(n, ch) \<in> set (characters (initial_system 0)). professional_level ch \<ge> 8"
    by (simp add: initial_system_def initial_characters_def)
  from emergency_snapshot_emissions[of emergency_snapshot "initial_system 0" only_sarah plain_emission]
    h1 h2 sarah_selection
  show ?thesis by simp
qed

section \<open>A selection that raises\<close>

lemma cessna_update:
  "complexity_level (guidance_context (update_guidance_context s cessna_cruise)) = 1"
  "traffic_density (guidance_context (update_guidance_context s cessna_cruise)) = 0"
  "emergency_situation (guidance_context (update_guidance_context s cessna_cruise)) = False"
  by (simp_all add: update_guidance_context_def Let_def cessna_cruise_def get_def)

lemma cessna_analysis:
  "analyze_situation (update_guidance_context s cessna_cruise) cessna_cruise =
     \<lparr>situation_type = ''routine'', urgency_level = 1,
      requires_technical_guidance = False, traffic_concerns = [],
      weather_concerns = [],
      educational_opportunities = [''navigation_efficiency'', ''aircraft_recognition''],
      character_preferences = [''captain_murphy'', ''sarah_spotter'', ''sarah_spotter'']\<rparr>"
  by (simp add: analyze_situation_def Let_def cessna_update)
     (simp add: cessna_cruise_def get_def)

lemma cessna_selection:
  "cycle_selection (initial_system 0) cessna_cruise only_sarah = Inl IndexError"
  by (simp add: cycle_selection_def select_characters_at_def Let_def cessna_analysis)
     (simp add: initial_system_def only_sarah_def sarah_available preferred_characters_def
        normal_selection_def random_choice_def)

lemma cessna_gate: "gate_open (initial_system 0) cessna_cruise only_sarah"
proof -
  let ?u = "update_guidance_context (initial_system 0) cessna_cruise"
  have e: "effective_cooldown ?u = 30" "final_probability ?u = 7 / 20"
    by (simp_all add: effective_cooldown_def final_probability_def cessna_update
        update_guidance_context_fields initial_system_def)
  show ?thesis
    by (simp add: gate_open_def gate_value e cessna_update update_guidance_context_fields)
       (simp add: initial_system_def only_sarah_def total_seconds_def)
qed

text \<open>
  Claim C5. The selector is claimed to return a list of at most two distinct names for
  every analysis and every outcome of the draws. For a cruise snapshot with an
  aircraft type outside the common ones, the analysis lists \<^verbatim>\<open>sarah_spotter\<close> twice;
  when she is the only available character and the second-speaker draw is below 0.2,
  the guard \<^verbatim>\<open>len(preferred_characters) > 1\<close> holds although nobody but the first
  speaker is left, and \<^verbatim>\<open>random.choice\<close> of the empty list raises IndexError, which
  leaves the cycle.
\<close>

theorem selector_raises_IndexError:
  "character_preferences
      (analyze_situation (update_guidance_context (initial_system 0) cessna_cruise) cessna_cruise)
     = [''captain_murphy'', ''sarah_spotter'', ''sarah_spotter'']
   \<and> select_characters_at (characters (initial_system 0)) 60000000
        (analyze_situation (update_guidance_context (initial_system 0) cessna_cruise) cessna_cruise)
        only_sarah = Inl IndexError
   \<and> fst (process_flight_situation (initial_system 0) cessna_cruise only_sarah) = Some IndexError"
proof (intro conjI)
  show "character_preferences
      (analyze_situation (update_guidance_context (initial_system 0) cessna_cruise) cessna_cruise)
     = [''captain_murphy'', ''sarah_spotter'', ''sarah_spotter'']"
    by (simp add: cessna_analysis)
  show "select_characters_at (characters (initial_system 0)) 60000000
        (analyze_situation (update_guidance_context (initial_system 0) cessna_cruise) cessna_cruise)
        only_sarah = Inl IndexError"
    using cessna_selection
    by (simp add: cycle_selection_def) (simp add: initial_system_def only_sarah_def)
  show "fst (process_flight_situation (initial_system 0) cessna_cruise only_sarah) = Some IndexError"
    using process_open[of "initial_system 0" cessna_cruise only_sarah] cessna_gate cessna_selection
    by (simp add: gate_open_def)
qed

section \<open>The per-character rest of five minutes\<close>

lemma map_of_mark_spoke:
  "map_of (mark_spoke c t chars) c' =
     map_option (\<lambda>ch. if c' = c
                      then ch\<lparr>last_spoke := Some t,
                              spoke_count_session := spoke_count_session ch + 1\<rparr>
                      else ch) (map_of chars c')"
proof (induction chars)
  case Nil
  then show ?case by (simp add: mark_spoke_def)
next
  case (Cons x chars)
  obtain n ch where x: "x = (n, ch)" by (cases x)
  from Cons have IH: "map_of (map (\<lambda>(n, ch). if n = c
                     then (n, ch\<lparr>last_spoke := Some t,
                                  spoke_count_session := spoke_count_session ch + 1\<rparr>)
                     else (n, ch)) chars) c' =
     map_option (\<lambda>ch. if c' = c
                      then ch\<lparr>last_spoke := Some t,
                              spoke_count_session := spoke_count_session ch + 1\<rparr>
                      else ch) (map_of chars c')"
    by (simp only: mark_spoke_def)
  show ?case
  proof (cases "n = c")
    case True
    then show ?thesis unfolding x mark_spoke_def using IH by simp
  next
    case False
    then show ?thesis unfolding x mark_spoke_def using IH by simp
  qed
qed

lemma last_spoke_of_mark_spoke:
  "last_spoke_of (mark_spoke c t chars) c' =
     (if c' = c \<and> c \<in> fst ` set chars then Some t else last_spoke_of chars c')"
proof (cases "map_of chars c'")
  case None
  then have "c' \<notin> fst ` set chars" by (simp add: map_of_eq_None_iff)
  with None show ?thesis by (auto simp: last_spoke_of_def map_of_mark_spoke)
next
  case (Some ch)
  then have "(c', ch) \<in> set chars" by (rule map_of_SomeD)
  then have "c' \<in> fst ` set chars" by force
  with Some show ?thesis by (auto simp: last_spoke_of_def map_of_mark_spoke)
qed

lemma spaced_snoc:
  "spaced (entries @ [(t, c, g)]) =
     (spaced entries \<and> (\<forall>(t', c', g') \<in> set entries. c' = c \<longrightarrow> t' + 300000000 \<le> t))"
  by (auto simp: spaced_def sorted_wrt_append)

lemma emit_keeps_inv:
  assumes inv: "cooldown_inv s" and key: "c \<in> fst ` set (characters s)" and rest: "rested s c"
  shows "cooldown_inv (emit several sa eo c g s)"
proof -
  let ?s' = "emit several sa eo c g s"
  let ?stamp = "clock s + int (dispatch_delay eo) + int (output_delay eo) + int (spoke_delay eo)"
  have chars: "characters ?s' = mark_spoke c ?stamp (characters s)"
    and disp: "dispatched ?s' = dispatched s @ [(clock s + int (dispatch_delay eo), c, g)]"
    and clk: "?stamp \<le> clock ?s'"
    by (simp_all add: emit_fields)
  from inv have d: "distinct (map fst (characters s))"
    and b: "\<And>c t. last_spoke_of (characters s) c = Some t \<Longrightarrow> t \<le> clock s"
    and cc: "\<And>t c g. (t, c, g) \<in> set (dispatched s) \<Longrightarrow>
               \<exists>t'. last_spoke_of (characters s) c = Some t' \<and> t \<le> t'"
    and sp: "spaced (dispatched s)"
    by (auto simp: cooldown_inv_def)
  have ls: "\<And>c'. last_spoke_of (characters ?s') c' =
              (if c' = c then Some ?stamp else last_spoke_of (characters s) c')"
    unfolding chars using key by (simp add: last_spoke_of_mark_spoke)
  have 1: "distinct (map fst (characters ?s'))"
    unfolding chars using d by (simp add: mark_spoke_keys)
  have 2: "\<forall>c' t. last_spoke_of (characters ?s') c' = Some t \<longrightarrow> t \<le> clock ?s'"
  proof (intro allI impI)
    fix c' t assume a: "last_spoke_of (characters ?s') c' = Some t"
    show "t \<le> clock ?s'"
    proof (cases "c' = c")
      case True
      with a ls have "t = ?stamp" by simp
      with clk show ?thesis by simp
    next
      case False
      with a ls have "last_spoke_of (characters s) c' = Some t" by simp
      from b[OF this] clk show ?thesis by simp
    qed
  qed
  have 3: "\<forall>(t, c', g') \<in> set (dispatched ?s').
             \<exists>t'. last_spoke_of (characters ?s') c' = Some t' \<and> t \<le> t'"
  proof (intro ballI, clarify)
    fix t c' g' assume a: "(t, c', g') \<in> set (dispatched ?s')"
    show "\<exists>t'. last_spoke_of (characters ?s') c' = Some t' \<and> t \<le> t'"
    proof (cases "c' = c")
      case True
      from a disp have "(t, c', g') \<in> set (dispatched s) \<or> t = clock s + int (dispatch_delay eo)"
        by auto
      then have "t \<le> ?stamp"
      proof
        assume "(t, c', g') \<in> set (dispatched s)"
        from cc[OF this] obtain t' where "last_spoke_of (characters s) c' = Some t'" "t \<le> t'"
          by blast
        with b[of c' t'] show ?thesis by simp
      qed simp
      with True ls show ?thesis by simp
    next
      case False
      with a disp have "(t, c', g') \<in> set (dispatched s)" by auto
      from cc[OF this] False ls show ?thesis by simp
    qed
  qed
  have 4: "spaced (dispatched ?s')"
    unfolding disp spaced_snoc
  proof (intro conjI ballI, fact sp, clarify)
    fix t' g' assume a: "(t', c, g') \<in> set (dispatched s)"
    from cc[OF a] obtain l where l: "last_spoke_of (characters s) c = Some l" "t' \<le> l"
      by blast
    with rest have "l + 300000000 \<le> clock s" by (simp add: rested_def)
    with l show "t' + 300000000 \<le> clock s + int (dispatch_delay eo)" by simp
  qed
  from 1 2 3 4 show ?thesis unfolding cooldown_inv_def by (intro conjI)
qed

lemma emit_keeps_rested:
  assumes "c' \<noteq> c" and "rested s c'"
  shows "rested (emit several sa eo c g s) c'"
proof -
  have "last_spoke_of (characters (emit several sa eo c g s)) c' = last_spoke_of (characters s) c'"
    using assms(1) by (simp add: emit_fields last_spoke_of_mark_spoke)
  moreover have "clock s \<le> clock (emit several sa eo c g s)"
    by (simp add: emit_fields)
  ultimately show ?thesis using assms(2)
    by (auto simp: rested_def split: option.splits)
qed

lemma guidance_loop_keeps_inv:
  assumes "cooldown_inv s" "distinct cs" "set cs \<subseteq> fst ` set (characters s)"
    "\<forall>c \<in> set cs. rested s c"
  shows "cooldown_inv (snd (guidance_loop several sa fd eos i cs s))"
  using assms
proof (induction cs arbitrary: s i)
  case Nil
  then show ?case by simp
next
  case (Cons c cs)
  from Cons.prems have cin: "c \<in> fst ` set (characters s)" by simp
  from guidance_loop_step[OF cin, of sa fd eos i several cs] obtain g where
    step: "guidance_loop several sa fd eos i (c # cs) s =
             guidance_loop several sa fd eos (Suc i) cs (emit several sa (eos i) c g s)"
    by blast
  let ?s1 = "emit several sa (eos i) c g s"
  from Cons.prems have "rested s c" by simp
  with Cons.prems(1) cin have 1: "cooldown_inv ?s1" by (rule emit_keeps_inv)
  from Cons.prems have 2: "distinct cs" by simp
  from Cons.prems have 3: "set cs \<subseteq> fst ` set (characters ?s1)" by (simp add: emit_keys)
  have 4: "\<forall>c' \<in> set cs. rested ?s1 c'"
  proof
    fix c' assume a: "c' \<in> set cs"
    with Cons.prems have "c' \<noteq> c" "rested s c'" by auto
    then show "rested ?s1 c'" by (rule emit_keeps_rested)
  qed
  from Cons.IH[OF 1 2 3 4, of "Suc i"] show ?case unfolding step .
qed

lemma available_rested:
  assumes "distinct (map fst chars)" "c \<in> set (available_characters chars now rnd)"
  shows "case last_spoke_of chars c of None \<Rightarrow> True | Some t \<Rightarrow> t + 300000000 \<le> now"
  using assms
proof (induction chars now rnd rule: available_characters.induct)
  case (1 now rnd)
  then show ?case by simp
next
  case (2 char_name ch rest now rnd)
  show ?case
  proof (cases "c = char_name")
    case True
    with 2(4) have notin: "c \<notin> fst ` set rest" by auto
    then have "c \<notin> set (available_characters rest now rnd)"
      using available_subset_keys by blast
    with 2(5) True have
      "\<not> (case last_spoke ch of None \<Rightarrow> False | Some t \<Rightarrow> total_seconds (now - t) / 60 < 5)"
      by (auto split: if_splits)
    then have "case last_spoke ch of None \<Rightarrow> True | Some t \<Rightarrow> t + 300000000 \<le> now"
    proof (cases "last_spoke ch")
      case None
      then show ?thesis by simp
    next
      case (Some t)
      assume "\<not> (case last_spoke ch of None \<Rightarrow> False
                  | Some t \<Rightarrow> total_seconds (now - t) / 60 < 5)"
      then have "\<not> now - t < 300000000"
        by (simp only: Some option.case rest_check simp_thms)
      then show ?thesis by (simp add: Some)
    qed
    with True show ?thesis by (simp add: last_spoke_of_def)
  next
    case False
    with 2(5) have "c \<in> set (available_characters rest now rnd)"
      by (auto split: if_splits)
    moreover from 2(4) have "distinct (map fst rest)" by simp
    ultimately have "case last_spoke_of rest c of None \<Rightarrow> True | Some t \<Rightarrow> t + 300000000 \<le> now"
      using 2(1,2,3) by (auto split: if_splits)
    with False show ?thesis by (simp add: last_spoke_of_def)
  qed
qed

lemma clock_keeps_inv:
  assumes "cooldown_inv s" "characters s' = characters s" "dispatched s' = dispatched s"
    "clock s \<le> clock s'"
  shows "cooldown_inv s'"
  using assms unfolding cooldown_inv_def by (auto intro: order_trans)

lemma process_keeps_inv:
  assumes inv: "cooldown_inv s"
  shows "cooldown_inv (snd (process_flight_situation s fd oc))"
proof (cases "gate_open s fd oc")
  case False
  then have p: "process_flight_situation s fd oc =
           (None, (update_guidance_context s fd)\<lparr>clock := clock s + int (gate_delay oc)\<rparr>)"
    using process_closed by (simp add: gate_open_def)
  show ?thesis unfolding p
    by (rule clock_keeps_inv[OF inv]) (simp_all add: update_guidance_context_fields)
next
  case True
  let ?st = "cycle_start s fd oc"
  have st: "cooldown_inv ?st"
    by (rule clock_keeps_inv[OF inv]) (simp_all add: cycle_start_fields)
  from True have p: "process_flight_situation s fd oc =
           (case cycle_selection s fd oc of
              Inl e \<Rightarrow> (Some e, cycle_start s fd oc)
            | Inr sel \<Rightarrow>
                guidance_loop (length sel > 1)
                  (analyze_situation (update_guidance_context s fd) fd) fd (emission oc) 0 sel
                  (cycle_start s fd oc))"
    using process_open by (simp add: gate_open_def)
  show ?thesis
  proof (cases "cycle_selection s fd oc")
    case (Inl e)
    with p st show ?thesis by simp
  next
    case (Inr sel)
    then have sel: "select_characters_at (characters s) (clock ?st)
                      (analyze_situation (update_guidance_context s fd) fd) oc = Inr sel"
      by (simp add: cycle_selection_def cycle_start_fields)
    from selection_shape[OF sel] have d: "distinct sel"
      and av: "set sel \<subseteq> set (available_characters (characters s) (clock ?st) (likelihood_random oc))"
      by simp_all
    from av available_subset_keys have k: "set sel \<subseteq> fst ` set (characters ?st)"
      by (fastforce simp: cycle_start_fields)
    from inv have dk: "distinct (map fst (characters s))" by (simp add: cooldown_inv_def)
    have r: "\<forall>c \<in> set sel. rested ?st c"
    proof
      fix c assume "c \<in> set sel"
      with av have "c \<in> set (available_characters (characters s) (clock ?st) (likelihood_random oc))"
        by blast
      from available_rested[OF dk this] show "rested ?st c"
        by (simp add: rested_def cycle_start_fields(1))
    qed
    from guidance_loop_keeps_inv[OF st d k r] Inr p show ?thesis by simp
  qed
qed

lemma cycles_keep_inv:
  "cooldown_inv s \<Longrightarrow> cooldown_inv (process_flight_situations s inputs)"
proof (induction inputs arbitrary: s)
  case Nil
  then show ?case by simp
next
  case (Cons x inputs)
  obtain fd oc where x: "x = (fd, oc)" by (cases x)
  from Cons.prems have "cooldown_inv (snd (process_flight_situation s fd oc))"
    by (rule process_keeps_inv)
  from Cons.IH[OF this] show ?case unfolding x by simp
qed

lemma initial_inv: "cooldown_inv (initial_system t0)"
  by (simp add: cooldown_inv_def initial_system_def initial_characters_def spaced_def
      last_spoke_of_def)

text \<open>
  In a state that satisfies the invariant, a cycle speaks only for characters whose
  \<^verbatim>\<open>last_spoke\<close>, if any, lies at least 5 minutes before the selector's clock read.
\<close>

lemma selected_characters_rested:
  assumes inv: "cooldown_inv s" and c: "c \<in> set (cycle_speakers s fd oc)"
    and t: "last_spoke_of (characters s) c = Some t"
  shows "t + 300000000 \<le> clock s + int (gate_delay oc) + int (select_delay oc)"
proof -
  from c have "c \<in> set (case cycle_selection s fd oc of Inl e \<Rightarrow> [] | Inr sel \<Rightarrow> sel)"
    by (cases "gate_open s fd oc") (simp_all add: cycle_speakers_def)
  then obtain sel where sel: "cycle_selection s fd oc = Inr sel" and cin: "c \<in> set sel"
    by (cases "cycle_selection s fd oc") simp_all
  from selection_shape[OF sel[unfolded cycle_selection_def]] have
    "set sel \<subseteq> set (available_characters (characters s)
                      (clock s + int (gate_delay oc) + int (select_delay oc))
                      (likelihood_random oc))"
    by simp
  with cin have av: "c \<in> set (available_characters (characters s)
                      (clock s + int (gate_delay oc) + int (select_delay oc))
                      (likelihood_random oc))"
    by blast
  from inv have "distinct (map fst (characters s))" by (simp add: cooldown_inv_def)
  from available_rested[OF this av] t show ?thesis by simp
qed

text \<open>
  Claim C4. In every state reached from the initial system by repeated cycles, two
  dispatches of the same character are at least 5 minutes (300000000 microseconds) of
  clock time apart.
\<close>

theorem character_emissions_five_minutes_apart:
  assumes "s = process_flight_situations (initial_system t0) inputs"
    and "i < j" and "j < length (dispatched s)"
    and "fst (snd (dispatched s ! i)) = fst (snd (dispatched s ! j))"
  shows "fst (dispatched s ! i) + 300000000 \<le> fst (dispatched s ! j)"
proof -
  from assms(1) have "cooldown_inv s" using cycles_keep_inv[OF initial_inv] by simp
  then have "spaced (dispatched s)" by (simp add: cooldown_inv_def)
  then have "(\<lambda>(t, c, g) (t', c', g'). c = c' \<longrightarrow> t + 300000000 \<le> t')
               (dispatched s ! i) (dispatched s ! j)"
    unfolding spaced_def using assms(2,3) by (simp add: sorted_wrt_iff_nth_less)
  with assms(4) show ?thesis by (simp add: split_beta)
qed

text \<open>Two cycles in which \<^verbatim>\<open>dublin_control\<close> speaks, 400 seconds apart.\<close>

theorem character_emissions_five_minutes_apart_witness:
  "length (dispatched (process_flight_situations (initial_system 0)
              (replicate 2 (quiet_snapshot, dublin_only)))) = 2
   \<and> fst (snd (dispatched (process_flight_situations (initial_system 0)
              (replicate 2 (quiet_snapshot, dublin_only))) ! 0))
     = fst (snd (dispatched (process_flight_situations (initial_system 0)
              (replicate 2 (quiet_snapshot, dublin_only))) ! 1))
   \<and> fst (dispatched (process_flight_situations (initial_system 0)
              (replicate 2 (quiet_snapshot, dublin_only))) ! 0) + 300000000
     \<le> fst (dispatched (process_flight_situations (initial_system 0)
              (replicate 2 (quiet_snapshot, dublin_only))) ! 1)"
proof -
  define S where "S = process_flight_situations (initial_system 0)
                        (replicate 2 (quiet_snapshot, dublin_only))"
  from dublin_cycles[OF dublin_ready_initial, of 0 2]
  have sp: "speakers S = [''dublin_control'', ''dublin_control'']"
    by (simp add: S_def speakers_def initial_system_def numeral_2_eq_2)
  then have "length (speakers S) = 2" by simp
  then have len: "length (dispatched S) = 2" by (simp add: speakers_def)
  have nth: "\<And>k. k < 2 \<Longrightarrow> fst (snd (dispatched S ! k)) = speakers S ! k"
    using len by (simp add: speakers_def split_beta)
  have same: "fst (snd (dispatched S ! 0)) = fst (snd (dispatched S ! 1))"
    using nth[of 0] nth[of 1] sp by simp
  have "(0::nat) < 1" "1 < length (dispatched S)" using len by simp_all
  from character_emissions_five_minutes_apart[OF S_def this same] len same
  show ?thesis unfolding S_def by simp
qed

end
